theory Spec2Isabelle
  imports Main "HOL-Library.Multiset" "HOL-Library.Sublist"
begin

section \<open>Strings\<close>

text \<open>
  A string is a sequence of code units. The model covers the code units U+0000 to U+00FF
  (the type \<^typ>\<open>char\<close>). On this range the white space of \<^verbatim>\<open>\s\<close> and of
  \<^verbatim>\<open>String.prototype.trim\<close> is TAB, LF, VT, FF, CR, SPACE and NBSP, and
  \<^verbatim>\<open>toLowerCase\<close> adds 32 to A..Z and to U+00C0..U+00DE except U+00D7.
\<close>

definition isSpace :: "char \<Rightarrow> bool" where
  "isSpace c = (of_char c \<in> {9, 10, 11, 12, 13, 32, 160 :: nat})"

definition toLowerChar :: "char \<Rightarrow> char" where
  "toLowerChar c =
     (let n = of_char c :: nat in
      if (65 \<le> n \<and> n \<le> 90) \<or> (192 \<le> n \<and> n \<le> 222 \<and> n \<noteq> 215)
      then char_of (n + 32) else c)"

definition toLowerCase :: "string \<Rightarrow> string" where
  "toLowerCase s = map toLowerChar s"

definition trim :: "string \<Rightarrow> string" where
  "trim s = rev (dropWhile isSpace (rev (dropWhile isSpace s)))"

text \<open>
  \<^verbatim>\<open>s.split(sep)\<close> for a one-character separator: the pieces between the
  occurrences of the separator, empty pieces included; the first argument is the piece
  being read.
\<close>

fun splitOn :: "char \<Rightarrow> string \<Rightarrow> string \<Rightarrow> string list" where
  "splitOn sep cur [] = [cur]"
| "splitOn sep cur (c # cs) =
     (if c = sep then cur # splitOn sep [] cs else splitOn sep (cur @ [c]) cs)"

definition split :: "string \<Rightarrow> char \<Rightarrow> string list" where
  "split s sep = splitOn sep [] s"

text \<open>\<^verbatim>\<open>xs[i]\<close>: \<^verbatim>\<open>undefined\<close> (here \<open>None\<close>) out of range.\<close>

fun index :: "'a list \<Rightarrow> nat \<Rightarrow> 'a option" where
  "index [] i = None"
| "index (x # xs) 0 = Some x"
| "index (x # xs) (Suc i) = index xs i"

text \<open>\<^verbatim>\<open>s.endsWith(t)\<close>.\<close>

definition endsWith :: "string \<Rightarrow> string \<Rightarrow> bool" where
  "endsWith s t = (length t \<le> length s \<and> drop (length s - length t) s = t)"

section \<open>Validation toolkit\<close>

subsection \<open>isValidEmail\<close>

text \<open>
  The character class \<^verbatim>\<open>[^\s@]\<close> of the pattern
  \<^verbatim>\<open>/^[^\s@]+@[^\s@]+\.[^\s@]+$/\<close>.
\<close>

definition emailChar :: "char \<Rightarrow> bool" where
  "emailChar c = (\<not> isSpace c \<and> c \<noteq> CHR ''@'')"

text \<open>
  \<^verbatim>\<open>emailRegex.test(email)\<close>. The first \<^verbatim>\<open>[^\s@]+\<close> is followed by
  \<^verbatim>\<open>@\<close>, which is outside the class, so it matches the longest prefix of class
  characters; the rest after the \<^verbatim>\<open>@\<close> consists of class characters up to the end
  and has a dot that is neither its first nor its last character.
\<close>

definition isValidEmail :: "string \<Rightarrow> bool" where
  "isValidEmail email =
     (let localPart = takeWhile emailChar email; rest = dropWhile emailChar email in
      localPart \<noteq> [] \<and>
      (case rest of
         [] \<Rightarrow> False
       | c # domainPart \<Rightarrow> c = CHR ''@'' \<and> list_all emailChar domainPart \<and>
                   CHR ''.'' \<in> set (butlast (tl domainPart))))"

subsection \<open>Exceptions\<close>

text \<open>
  A thrown value is an error object exposing a message. A computation either completes
  with a value or throws.
\<close>

datatype js_error = Error (message: string) | TypeError (message: string)

datatype 'a completion = Normal 'a | Throw js_error

text \<open>\<^verbatim>\<open>xs.some(p)\<close>, where the callback may throw; it stops at the first hit.\<close>

fun some :: "('a \<Rightarrow> bool completion) \<Rightarrow> 'a list \<Rightarrow> bool completion" where
  "some p [] = Normal False"
| "some p (x # xs) =
     (case p x of
        Throw e \<Rightarrow> Throw e
      | Normal b \<Rightarrow> if b then Normal True else some p xs)"

text \<open>\<^verbatim>\<open>xs.forEach(f)\<close>, where the callback updates a state and may throw.\<close>

fun forEach :: "('s \<Rightarrow> 'a \<Rightarrow> 's completion) \<Rightarrow> 'a list \<Rightarrow> 's \<Rightarrow> 's completion" where
  "forEach f [] st = Normal st"
| "forEach f (x # xs) st =
     (case f st x of
        Throw e \<Rightarrow> Throw e
      | Normal st' \<Rightarrow> forEach f xs st')"

subsection \<open>isAllowedDomain\<close>

text \<open>
  The callback of \<^verbatim>\<open>allowedDomains.some\<close>. \<open>emailDomain\<close> is \<open>None\<close> when
  \<^verbatim>\<open>email.split('@')[1]\<close> is \<^verbatim>\<open>undefined\<close>; then \<^verbatim>\<open>===\<close> is false and
  \<^verbatim>\<open>emailDomain.endsWith\<close> throws.
\<close>

definition domainMatches :: "string option \<Rightarrow> string \<Rightarrow> bool completion" where
  "domainMatches emailDomain domain =
     (case emailDomain of
        None \<Rightarrow> Throw (TypeError ''Cannot read properties of undefined (reading 'endsWith')'')
      | Some d \<Rightarrow> Normal (d = toLowerCase domain \<or>
                          endsWith d (CHR ''.'' # toLowerCase domain)))"

text \<open>
  The allow-list is \<open>None\<close> for \<^verbatim>\<open>null\<close>; an omitted argument takes the default
  \<^verbatim>\<open>[]\<close>, that is \<open>Some []\<close>.
\<close>

definition isAllowedDomain :: "string \<Rightarrow> string list option \<Rightarrow> bool completion" where
  "isAllowedDomain email allowedDomains =
     (if email = [] \<or> \<not> isValidEmail email then Normal False
      else case allowedDomains of
        None \<Rightarrow> Normal True
      | Some domains \<Rightarrow>
          if length domains = 0 then Normal True
          else let emailDomain = map_option toLowerCase (index (split email CHR ''@'') 1)
               in some (domainMatches emailDomain) domains)"

subsection \<open>normalizeEmails and validateEmailBatch\<close>

text \<open>
  Values of the language as far as data goes: what a JSON payload holds, and
  \<^verbatim>\<open>undefined\<close>. An object is the list of its own properties; numbers are the
  integers.
\<close>

datatype jsval =
    Undefined
  | Null
  | Bool bool
  | Num int
  | Str string
  | Arr "jsval list"
  | Obj "(string \<times> jsval) list"

fun truthy :: "jsval \<Rightarrow> bool" where
  "truthy Undefined = False"
| "truthy Null = False"
| "truthy (Bool b) = b"
| "truthy (Num n) = (n \<noteq> 0)"
| "truthy (Str s) = (s \<noteq> [])"
| "truthy (Arr xs) = True"
| "truthy (Obj ps) = True"

text \<open>
  The element callback of the array branch:
  \<^verbatim>\<open>typeof email === 'string' ? email.trim().toLowerCase() : ''\<close>.
\<close>

fun normalizeElement :: "jsval \<Rightarrow> string" where
  "normalizeElement (Str s) = toLowerCase (trim s)"
| "normalizeElement v = []"

definition normalizeEmails :: "jsval \<Rightarrow> string list" where
  "normalizeEmails emails =
     (if \<not> truthy emails then []
      else case emails of
        Str s \<Rightarrow>
          filter (\<lambda>email. length email > 0 \<and> isValidEmail email)
            (map (\<lambda>email. toLowerCase (trim email)) (split s CHR '',''))
      | Arr xs \<Rightarrow>
          filter (\<lambda>email. length email > 0 \<and> isValidEmail email)
            (map normalizeElement xs)
      | _ \<Rightarrow> [])"

record batch_result =
  valid :: "string list"
  invalid :: "string list"
  domainRestricted :: "string list"

definition emptyBatch :: batch_result where
  "emptyBatch = \<lparr>valid = [], invalid = [], domainRestricted = []\<rparr>"

text \<open>The body of the \<^verbatim>\<open>forEach\<close> callback of \<^verbatim>\<open>validateEmailBatch\<close>.\<close>

definition batchStep ::
  "string list option \<Rightarrow> batch_result \<Rightarrow> string \<Rightarrow> batch_result completion" where
  "batchStep allowedDomains results email =
     (if \<not> isValidEmail email then
        Normal (results\<lparr>invalid := invalid results @ [email]\<rparr>)
      else
        case isAllowedDomain email allowedDomains of
          Throw e \<Rightarrow> Throw e
        | Normal allowed \<Rightarrow>
            if \<not> allowed then
              Normal (results\<lparr>domainRestricted := domainRestricted results @ [email]\<rparr>)
            else
              Normal (results\<lparr>valid := valid results @ [email]\<rparr>))"

definition validateEmailBatch :: "jsval \<Rightarrow> string list option \<Rightarrow> batch_result completion" where
  "validateEmailBatch emails allowedDomains =
     forEach (batchStep allowedDomains) (normalizeEmails emails) emptyBatch"

subsection \<open>parseBulkEmails\<close>

text \<open>The class \<^verbatim>\<open>[,;\n\s]\<close>.\<close>

definition isDelimiter :: "char \<Rightarrow> bool" where
  "isDelimiter c = (c = CHR '','' \<or> c = CHR '';'' \<or> c = CHR 0x0A \<or> isSpace c)"

text \<open>
  \<^verbatim>\<open>input.split(/[,;\n\s]+/)\<close>: a match starts at the first delimiter after the
  piece being read and takes the whole run of delimiters; the piece before it is
  emitted, also when it is empty (at the start of the input), and the piece after the
  last match is emitted, also when it is empty.
\<close>

function splitDelimiters :: "string \<Rightarrow> string \<Rightarrow> string list" where
  "splitDelimiters cur [] = [cur]"
| "splitDelimiters cur (c # cs) =
     (if isDelimiter c then cur # splitDelimiters [] (dropWhile isDelimiter cs)
      else splitDelimiters (cur @ [c]) cs)"
  by pat_completeness auto
termination
  by (relation "measure (\<lambda>(cur, s). length s)")
     (auto simp: less_Suc_eq_le length_dropWhile_le)

definition bulkTokens :: "string \<Rightarrow> string list" where
  "bulkTokens input =
     filter (\<lambda>email. length email > 0)
       (map (\<lambda>email. toLowerCase (trim email)) (splitDelimiters [] input))"

text \<open>
  The result object has the three fields of the batch result and \<^verbatim>\<open>duplicates\<close>.
\<close>

record bulk_result = batch_result +
  duplicates :: "string list"

definition emptyBulk :: bulk_result where
  "emptyBulk = \<lparr>valid = [], invalid = [], domainRestricted = [], duplicates = []\<rparr>"

text \<open>
  \<^verbatim>\<open>allowedDomains.length > 0\<close>, which throws on \<^verbatim>\<open>null\<close>.
\<close>

definition nonEmptyList :: "string list option \<Rightarrow> bool completion" where
  "nonEmptyList allowedDomains =
     (case allowedDomains of
        None \<Rightarrow> Throw (TypeError ''Cannot read properties of null (reading 'length')'')
      | Some domains \<Rightarrow> Normal (length domains > 0))"

text \<open>
  The body of the \<^verbatim>\<open>forEach\<close> callback; the state is the result object and the
  set \<^verbatim>\<open>seen\<close>. The right operand of \<^verbatim>\<open>&&\<close> is evaluated only when the left
  one is true.
\<close>

definition classifyEmail ::
  "string list option \<Rightarrow> bulk_result \<times> string set \<Rightarrow> string
     \<Rightarrow> (bulk_result \<times> string set) completion" where
  "classifyEmail allowedDomains st email =
     (let results = fst st; seen = snd st in
      if \<not> isValidEmail email then
        Normal (results\<lparr>invalid := invalid results @ [email]\<rparr>, seen)
      else if email \<in> seen then
        Normal (results\<lparr>duplicates := duplicates results @ [email]\<rparr>, seen)
      else
        case isAllowedDomain email allowedDomains of
          Throw e \<Rightarrow> Throw e
        | Normal allowed \<Rightarrow>
            (case (if \<not> allowed then nonEmptyList allowedDomains else Normal False) of
               Throw e \<Rightarrow> Throw e
             | Normal restricted \<Rightarrow>
                 if restricted then
                   Normal (results\<lparr>domainRestricted := domainRestricted results @ [email]\<rparr>,
                           seen)
                 else
                   Normal (results\<lparr>valid := valid results @ [email]\<rparr>,
                           insert email seen)))"

definition parseBulkEmails :: "string \<Rightarrow> string list option \<Rightarrow> bulk_result completion" where
  "parseBulkEmails input allowedDomains =
     (if input = [] then Normal emptyBulk
      else case forEach (classifyEmail allowedDomains) (bulkTokens input) (emptyBulk, {}) of
        Throw e \<Rightarrow> Throw e
      | Normal st \<Rightarrow> Normal (fst st))"

section \<open>Notification facade\<close>

subsection \<open>Programs with effects\<close>

text \<open>
  What a program leaves behind besides its result: the lines written to the console and
  the calls of listener callbacks, in order. A callback is named by its reference.
\<close>

type_synonym callback = nat

datatype event =
    ConsoleError string js_error
  | ConsoleLog string
  | Called callback jsval

text \<open>
  A program takes a state and gives a completion, the new state and the events it
  produced. \<open>bnd\<close> is sequencing (a throw skips the rest), \<open>tryCatch\<close> is
  \<^verbatim>\<open>try { ... } catch (error) { ... }\<close>, \<open>await\<close> takes the settled outcome of a
  promise: a rejection is thrown.
\<close>

type_synonym ('s, 'a) prog = "'s \<Rightarrow> 'a completion \<times> 's \<times> event list"

definition ret :: "'a \<Rightarrow> ('s, 'a) prog" where
  "ret v s = (Normal v, s, [])"

definition await :: "'a completion \<Rightarrow> ('s, 'a) prog" where
  "await c s = (c, s, [])"

definition emit :: "event \<Rightarrow> ('s, unit) prog" where
  "emit ev s = (Normal (), s, [ev])"

definition bnd :: "('s, 'a) prog \<Rightarrow> ('a \<Rightarrow> ('s, 'b) prog) \<Rightarrow> ('s, 'b) prog" where
  "bnd m f s =
     (case m s of
        (Normal v, s', evs) \<Rightarrow> (case f v s' of (r, s'', evs') \<Rightarrow> (r, s'', evs @ evs'))
      | (Throw e, s', evs) \<Rightarrow> (Throw e, s', evs))"

definition tryCatch :: "('s, 'a) prog \<Rightarrow> (js_error \<Rightarrow> ('s, 'a) prog) \<Rightarrow> ('s, 'a) prog" where
  "tryCatch body handler s =
     (case body s of
        (Normal v, s', evs) \<Rightarrow> (Normal v, s', evs)
      | (Throw e, s', evs) \<Rightarrow>
          (case handler e s' of (r, s'', evs') \<Rightarrow> (r, s'', evs @ evs')))"

definition getState :: "('s, 's) prog" where
  "getState s = (Normal s, s, [])"

text \<open>\<^verbatim>\<open>xs.forEach(f)\<close> for a callback that is a program.\<close>

fun forEachP :: "('a \<Rightarrow> ('s, unit) prog) \<Rightarrow> 'a list \<Rightarrow> ('s, unit) prog" where
  "forEachP f [] = ret ()"
| "forEachP f (x # xs) = bnd (f x) (\<lambda>_. forEachP f xs)"

subsection \<open>Property access\<close>

text \<open>
  \<^verbatim>\<open>v?.name\<close>: \<^verbatim>\<open>undefined\<close> on \<^verbatim>\<open>null\<close> and \<^verbatim>\<open>undefined\<close>, the
  property otherwise. Of the properties that arrays and strings have by themselves the
  program reads only \<^verbatim>\<open>length\<close>.
\<close>

fun getOpt :: "jsval \<Rightarrow> string \<Rightarrow> jsval" where
  "getOpt (Obj ps) name = (case map_of ps name of None \<Rightarrow> Undefined | Some v \<Rightarrow> v)"
| "getOpt (Arr xs) name = (if name = ''length'' then Num (int (length xs)) else Undefined)"
| "getOpt (Str s) name = (if name = ''length'' then Num (int (length s)) else Undefined)"
| "getOpt v name = Undefined"

text \<open>\<^verbatim>\<open>v.name\<close> throws on \<^verbatim>\<open>null\<close> and \<^verbatim>\<open>undefined\<close>.\<close>

definition getProp :: "jsval \<Rightarrow> string \<Rightarrow> jsval completion" where
  "getProp v name =
     (if v = Undefined \<or> v = Null
      then Throw (TypeError (''Cannot read properties of null or undefined, reading '' @ name))
      else Normal (getOpt v name))"

text \<open>\<^verbatim>\<open>a || b\<close>.\<close>

definition orElse :: "jsval \<Rightarrow> jsval \<Rightarrow> jsval" where
  "orElse a b = (if truthy a then a else b)"

subsection \<open>The API client and the result envelope\<close>

text \<open>
  The injected API client, by the settled outcome of each call: the value the promise
  resolves to, or the error it rejects with.
\<close>

record api_client =
  getAll :: "jsval \<Rightarrow> jsval completion"
  create :: "jsval \<Rightarrow> jsval completion"
  markAsRead :: "jsval \<Rightarrow> jsval completion"
  markAllAsRead :: "jsval completion"
  delete :: "jsval \<Rightarrow> jsval completion"
  getStats :: "jsval completion"

text \<open>A property of an object literal is written or left out.\<close>

datatype 'a field = Absent | Present 'a

record envelope =
  success :: bool
  data :: "jsval field"
  error :: jsval

text \<open>Reading a property that was left out gives \<^verbatim>\<open>undefined\<close>.\<close>

fun fieldValue :: "jsval field \<Rightarrow> jsval" where
  "fieldValue Absent = Undefined"
| "fieldValue (Present v) = v"

subsection \<open>Facade operations\<close>

definition getNotifications :: "api_client \<Rightarrow> jsval \<Rightarrow> ('s, envelope) prog" where
  "getNotifications api filters =
     tryCatch
       (bnd (await (getAll api filters)) (\<lambda>result.
          ret \<lparr>success = True,
               data = Present (orElse (orElse (getOpt result ''data'') result) (Arr [])),
               error = Null\<rparr>))
       (\<lambda>error.
          bnd (emit (ConsoleError ''Failed to fetch notifications, falling back to mock:'' error))
            (\<lambda>_. ret \<lparr>success = False, data = Present (Arr []),
                       error = Str (message error)\<rparr>))"

definition createNotification :: "api_client \<Rightarrow> jsval \<Rightarrow> ('s, envelope) prog" where
  "createNotification api notificationData =
     tryCatch
       (bnd (await (create api notificationData)) (\<lambda>result.
          ret \<lparr>success = True, data = Present (orElse (getOpt result ''data'') result),
               error = Null\<rparr>))
       (\<lambda>error.
          bnd (emit (ConsoleError ''Failed to create notification:'' error))
            (\<lambda>_. ret \<lparr>success = False, data = Absent, error = Str (message error)\<rparr>))"

definition markNotificationAsRead :: "api_client \<Rightarrow> jsval \<Rightarrow> ('s, envelope) prog" where
  "markNotificationAsRead api notificationId =
     tryCatch
       (bnd (await (markAsRead api notificationId)) (\<lambda>result.
          ret \<lparr>success = True, data = Present (orElse (getOpt result ''data'') result),
               error = Null\<rparr>))
       (\<lambda>error.
          bnd (emit (ConsoleError ''Failed to mark notification as read:'' error))
            (\<lambda>_. ret \<lparr>success = False, data = Absent, error = Str (message error)\<rparr>))"

definition markAllNotificationsAsRead :: "api_client \<Rightarrow> ('s, envelope) prog" where
  "markAllNotificationsAsRead api =
     tryCatch
       (bnd (await (markAllAsRead api)) (\<lambda>result.
          ret \<lparr>success = True, data = Present (orElse (getOpt result ''data'') result),
               error = Null\<rparr>))
       (\<lambda>error.
          bnd (emit (ConsoleError ''Failed to mark all notifications as read:'' error))
            (\<lambda>_. ret \<lparr>success = False, data = Absent, error = Str (message error)\<rparr>))"

definition deleteNotification :: "api_client \<Rightarrow> jsval \<Rightarrow> ('s, envelope) prog" where
  "deleteNotification api notificationId =
     tryCatch
       (bnd (await (delete api notificationId)) (\<lambda>result.
          ret \<lparr>success = True, data = Present (orElse (getOpt result ''data'') result),
               error = Null\<rparr>))
       (\<lambda>error.
          bnd (emit (ConsoleError ''Failed to delete notification:'' error))
            (\<lambda>_. ret \<lparr>success = False, data = Absent, error = Str (message error)\<rparr>))"

definition getNotificationStats :: "api_client \<Rightarrow> ('s, envelope) prog" where
  "getNotificationStats api =
     tryCatch
       (bnd (await (getStats api)) (\<lambda>result.
          ret \<lparr>success = True, data = Present (orElse (getOpt result ''data'') result),
               error = Null\<rparr>))
       (\<lambda>error.
          bnd (emit (ConsoleError ''Failed to fetch notification stats:'' error))
            (\<lambda>_. ret \<lparr>success = False, data = Absent, error = Str (message error)\<rparr>))"

subsection \<open>checkFirstTimeUser\<close>

text \<open>
  The callback of \<^verbatim>\<open>notifications.some\<close>:
  \<^verbatim>\<open>n.type === 'welcome' || n.notification_metadata?.isWelcome\<close>, taken for its truth
  value.
\<close>

definition isWelcomeEntry :: "jsval \<Rightarrow> bool completion" where
  "isWelcomeEntry n =
     (case getProp n ''type'' of
        Throw e \<Rightarrow> Throw e
      | Normal t \<Rightarrow>
          if t = Str ''welcome'' then Normal True
          else (case getProp n ''notification_metadata'' of
                  Throw e \<Rightarrow> Throw e
                | Normal m \<Rightarrow> Normal (truthy (getOpt m ''isWelcome''))))"

text \<open>
  \<^verbatim>\<open>notifications.some(...)\<close>: only an array has the method; on any other value
  the call throws.
\<close>

fun someOf :: "(jsval \<Rightarrow> bool completion) \<Rightarrow> jsval \<Rightarrow> bool completion" where
  "someOf p (Arr xs) = some p xs"
| "someOf p v = Throw (TypeError ''notifications.some is not a function'')"

definition checkFirstTimeUser :: "api_client \<Rightarrow> ('s, bool) prog" where
  "checkFirstTimeUser api =
     tryCatch
       (bnd (getNotifications api (Obj [(''limit'', Num 1)])) (\<lambda>result.
          let notifications = orElse (fieldValue (data result)) (Arr []) in
          bnd (await (getProp notifications ''length'')) (\<lambda>len.
            if len = Num 0 then ret True
            else bnd (await (someOf isWelcomeEntry notifications)) (\<lambda>hasWelcome.
                   ret (\<not> hasWelcome)))))
       (\<lambda>error.
          bnd (emit (ConsoleError ''Failed to check first-time user status:'' error))
            (\<lambda>_. ret False))"

section \<open>Notification manager\<close>

text \<open>
  The fields of the manager. \<^verbatim>\<open>listeners\<close> is a set iterated in insertion order:
  a list without repetitions. \<^verbatim>\<open>pollingInterval\<close> is \<^verbatim>\<open>null\<close> or a timer handle.
\<close>

record manager =
  listeners :: "callback list"
  notifications :: jsval
  isPolling :: bool
  pollingInterval :: "nat option"

text \<open>
  The manager and the timers of the platform: the handles of the intervals that are
  scheduled, and the next handle \<^verbatim>\<open>setInterval\<close> gives out. Handles are positive
  integers.
\<close>

record world =
  mgr :: manager
  intervals :: "nat list"
  nextHandle :: nat

definition newManager :: manager where
  "newManager = \<lparr>listeners = [], notifications = Arr [], isPolling = False,
                  pollingInterval = None\<rparr>"

definition initialWorld :: world where
  "initialWorld = \<lparr>mgr = newManager, intervals = [], nextHandle = 1\<rparr>"

definition setInterval :: "(world, nat) prog" where
  "setInterval w =
     (Normal (nextHandle w),
      w\<lparr>intervals := intervals w @ [nextHandle w], nextHandle := Suc (nextHandle w)\<rparr>, [])"

definition clearInterval :: "nat \<Rightarrow> (world, unit) prog" where
  "clearInterval h w = (Normal (), w\<lparr>intervals := removeAll h (intervals w)\<rparr>, [])"

definition updateManager :: "(manager \<Rightarrow> manager) \<Rightarrow> (world, unit) prog" where
  "updateManager f w = (Normal (), w\<lparr>mgr := f (mgr w)\<rparr>, [])"

text \<open>
  \<^verbatim>\<open>notifyListeners\<close>. The behaviour of the callbacks is a parameter: what the call
  of a callback on the notification sequence does, return or throw. Callbacks that call
  the manager's methods while they run are outside the model.
\<close>

definition notifyListeners :: "(callback \<Rightarrow> jsval \<Rightarrow> unit completion) \<Rightarrow> (world, unit) prog" where
  "notifyListeners cbs =
     bnd getState (\<lambda>w0.
       forEachP (\<lambda>callback.
         tryCatch
           (bnd getState (\<lambda>w.
              bnd (emit (Called callback (notifications (mgr w)))) (\<lambda>_.
                await (cbs callback (notifications (mgr w))))))
           (\<lambda>error. emit (ConsoleError ''Error in notification listener:'' error)))
         (listeners (mgr w0)))"

text \<open>The function given to \<^verbatim>\<open>setInterval\<close>: one poll.\<close>

definition pollTick ::
  "(callback \<Rightarrow> jsval \<Rightarrow> unit completion) \<Rightarrow> api_client \<Rightarrow> (world, unit) prog" where
  "pollTick cbs api =
     tryCatch
       (bnd (getNotifications api (Obj [])) (\<lambda>result.
          if success result then
            bnd (updateManager (\<lambda>m. m\<lparr>notifications := fieldValue (data result)\<rparr>)) (\<lambda>_.
              notifyListeners cbs)
          else ret ()))
       (\<lambda>error. emit (ConsoleError ''Error polling notifications:'' error))"

definition startRealTime :: "(world, unit) prog" where
  "startRealTime =
     bnd getState (\<lambda>w.
       if isPolling (mgr w) then ret ()
       else
         bnd (updateManager (\<lambda>m. m\<lparr>isPolling := True\<rparr>)) (\<lambda>_.
         bnd setInterval (\<lambda>h.
         bnd (updateManager (\<lambda>m. m\<lparr>pollingInterval := Some h\<rparr>)) (\<lambda>_.
           emit (ConsoleLog ''Real-time notifications started'')))))"

text \<open>
  \<^verbatim>\<open>if (this.pollingInterval)\<close> holds for a handle other than 0.
\<close>

definition stopRealTime :: "(world, unit) prog" where
  "stopRealTime =
     bnd getState (\<lambda>w.
       bnd (case pollingInterval (mgr w) of
              None \<Rightarrow> ret ()
            | Some h \<Rightarrow>
                if h \<noteq> 0 then
                  bnd (clearInterval h) (\<lambda>_.
                    updateManager (\<lambda>m. m\<lparr>pollingInterval := None\<rparr>))
                else ret ()) (\<lambda>_.
       bnd (updateManager (\<lambda>m. m\<lparr>isPolling := False\<rparr>)) (\<lambda>_.
         emit (ConsoleLog ''Real-time notifications stopped''))))"

text \<open>
  \<^verbatim>\<open>addListener\<close> adds the callback to the set; the function it returns deletes
  it again (\<open>removeListener\<close>).
\<close>

definition addListener :: "callback \<Rightarrow> (world, unit) prog" where
  "addListener callback =
     updateManager (\<lambda>m.
       m\<lparr>listeners := (if callback \<in> set (listeners m) then listeners m
                        else listeners m @ [callback])\<rparr>)"

definition removeListener :: "callback \<Rightarrow> (world, unit) prog" where
  "removeListener callback =
     updateManager (\<lambda>m. m\<lparr>listeners := removeAll callback (listeners m)\<rparr>)"

text \<open>
  What happens to a manager: calls of its methods, and polls, run by the platform
  with the API client as it answers at that moment.
\<close>

datatype action =
    StartRealTime
  | StopRealTime
  | AddListener callback
  | RemoveListener callback
  | Poll api_client

fun perform :: "(callback \<Rightarrow> jsval \<Rightarrow> unit completion) \<Rightarrow> action \<Rightarrow> (world, unit) prog" where
  "perform cbs StartRealTime = startRealTime"
| "perform cbs StopRealTime = stopRealTime"
| "perform cbs (AddListener callback) = addListener callback"
| "perform cbs (RemoveListener callback) = removeListener callback"
| "perform cbs (Poll api) = pollTick cbs api"

definition run :: "(callback \<Rightarrow> jsval \<Rightarrow> unit completion) \<Rightarrow> action list \<Rightarrow> (world, unit) prog" where
  "run cbs acts = forEachP (perform cbs) acts"

section \<open>The specification's notions\<close>

text \<open>
  The definitions of this section follow the wording of the specification, not the
  code; the theorems below compare the code with them.
\<close>

text \<open>The domain of an email: the part after the \<^verbatim>\<open>@\<close>.\<close>

definition spec_emailDomain :: "string \<Rightarrow> string" where
  "spec_emailDomain email = tl (dropWhile (\<lambda>c. c \<noteq> CHR ''@'') email)"

text \<open>
  The domain equals an entry of the allow-list or is a sub-domain of one (it ends with
  a dot and the entry), lower-cased on both sides.
\<close>

definition spec_domainAllowed :: "string \<Rightarrow> string list \<Rightarrow> bool" where
  "spec_domainAllowed email domains =
     (\<exists>domain \<in> set domains.
        toLowerCase (spec_emailDomain email) = toLowerCase domain \<or>
        suffix (CHR ''.'' # toLowerCase domain) (toLowerCase (spec_emailDomain email)))"

text \<open>
  The tokens of a bulk input: the non-empty runs of characters between delimiters,
  lower-cased. The first argument of \<open>spec_words\<close> is the run being read.
\<close>

fun spec_words :: "string \<Rightarrow> string \<Rightarrow> string list" where
  "spec_words cur [] = (if cur = [] then [] else [cur])"
| "spec_words cur (c # cs) =
     (if isDelimiter c then (if cur = [] then spec_words [] cs else cur # spec_words [] cs)
      else spec_words (cur @ [c]) cs)"

definition spec_tokens :: "string \<Rightarrow> string list" where
  "spec_tokens input = map toLowerCase (spec_words [] input)"

datatype bucket = Invalid | Duplicate | DomainRestricted | Valid

definition spec_restricted :: "string list option \<Rightarrow> string \<Rightarrow> bool" where
  "spec_restricted allowedDomains email =
     (case allowedDomains of
        None \<Rightarrow> False
      | Some domains \<Rightarrow> domains \<noteq> [] \<and> \<not> spec_domainAllowed email domains)"

fun spec_classify :: "string list option \<Rightarrow> string set \<Rightarrow> string list \<Rightarrow> (string \<times> bucket) list" where
  "spec_classify allowedDomains seen [] = []"
| "spec_classify allowedDomains seen (t # ts) =
     (if \<not> isValidEmail t then (t, Invalid) # spec_classify allowedDomains seen ts
      else if t \<in> seen then (t, Duplicate) # spec_classify allowedDomains seen ts
      else if spec_restricted allowedDomains t
        then (t, DomainRestricted) # spec_classify allowedDomains seen ts
      else (t, Valid) # spec_classify allowedDomains (insert t seen) ts)"

definition bucketOf :: "bucket \<Rightarrow> (string \<times> bucket) list \<Rightarrow> string list" where
  "bucketOf b labelled = map fst (filter (\<lambda>p. snd p = b) labelled)"

text \<open>The calls of listeners among the events, in order.\<close>

fun calls :: "event list \<Rightarrow> (callback \<times> jsval) list" where
  "calls [] = []"
| "calls (Called callback v # evs) = (callback, v) # calls evs"
| "calls (ev # evs) = calls evs"

text \<open>
  The fan-out the specification asks for: every listener is called with the sequence,
  in registration order, and the error of a listener that throws is logged after its
  call.
\<close>

fun spec_fanOut :: "(callback \<Rightarrow> jsval \<Rightarrow> unit completion) \<Rightarrow> jsval \<Rightarrow> callback list \<Rightarrow> event list" where
  "spec_fanOut cbs n [] = []"
| "spec_fanOut cbs n (callback # rest) =
     Called callback n #
     (case cbs callback n of
        Normal u \<Rightarrow> []
      | Throw e \<Rightarrow> [ConsoleError ''Error in notification listener:'' e]) @
     spec_fanOut cbs n rest"

text \<open>
  The scheduled intervals are exactly the one the manager holds, the polling flag says
  whether it holds one, and handles are positive.
\<close>

definition pollingInvariant :: "world \<Rightarrow> bool" where
  "pollingInvariant w =
     (intervals w = (case pollingInterval (mgr w) of None \<Rightarrow> [] | Some h \<Rightarrow> [h]) \<and>
      isPolling (mgr w) = (pollingInterval (mgr w) \<noteq> None) \<and>
      pollingInterval (mgr w) \<noteq> Some 0 \<and>
      0 < nextHandle w)"

section \<open>Sample inputs\<close>

text \<open>
  An API client whose every call rejects with the given error, one whose every call
  resolves to the given value, a callback table in which callback 2 throws, and a
  polling manager with three listeners.
\<close>

definition rejectingClient :: "js_error \<Rightarrow> api_client" where
  "rejectingClient e =
     \<lparr>getAll = (\<lambda>filters. Throw e), create = (\<lambda>payload. Throw e),
      markAsRead = (\<lambda>notificationId. Throw e), markAllAsRead = Throw e,
      delete = (\<lambda>notificationId. Throw e), getStats = Throw e\<rparr>"

definition resolvingClient :: "jsval \<Rightarrow> api_client" where
  "resolvingClient v =
     \<lparr>getAll = (\<lambda>filters. Normal v), create = (\<lambda>payload. Normal v),
      markAsRead = (\<lambda>notificationId. Normal v), markAllAsRead = Normal v,
      delete = (\<lambda>notificationId. Normal v), getStats = Normal v\<rparr>"

definition throwingSecond :: "callback \<Rightarrow> jsval \<Rightarrow> unit completion" where
  "throwingSecond callback v = (if callback = 2 then Throw (Error ''boom'') else Normal ())"

definition threeListeners :: world where
  "threeListeners =
     \<lparr>mgr = \<lparr>listeners = [1, 2, 3], notifications = Arr [Str ''n''], isPolling = True,
             pollingInterval = Some 1\<rparr>,
      intervals = [1], nextHandle = 2\<rparr>"

section \<open>Properties of the validation toolkit\<close>

subsection \<open>Auxiliary facts\<close>

lemma splitOn_no_sep: "sep \<notin> set s \<Longrightarrow> splitOn sep cur s = [cur @ s]"
  by (induction s arbitrary: cur) auto

lemma splitOn_first_sep:
  "sep \<notin> set l \<Longrightarrow> splitOn sep cur (l @ sep # r) = (cur @ l) # splitOn sep [] r"
  by (induction l arbitrary: cur) auto

lemma emailChar_not_at: "list_all emailChar s \<Longrightarrow> CHR ''@'' \<notin> set s"
  by (auto simp: list_all_iff emailChar_def)

text \<open>
  The strings the pattern matches: a local part, \<^verbatim>\<open>@\<close>, and a domain with a dot
  inside, all three pieces non-empty and over the class \<^verbatim>\<open>[^\s@]\<close>.
\<close>

lemma isValidEmail_iff:
  "isValidEmail email \<longleftrightarrow>
     (\<exists>l a b. email = l @ CHR ''@'' # a @ CHR ''.'' # b \<and> l \<noteq> [] \<and> a \<noteq> [] \<and> b \<noteq> [] \<and>
        list_all emailChar l \<and> list_all emailChar a \<and> list_all emailChar b)"
  (is "?L \<longleftrightarrow> ?R")
proof
  assume ?L
  define l where "l = takeWhile emailChar email"
  define rest where "rest = dropWhile emailChar email"
  have e: "email = l @ rest" by (simp add: l_def rest_def)
  from \<open>?L\<close> obtain d where r: "rest = CHR ''@'' # d" and l: "l \<noteq> []"
    and d: "list_all emailChar d" and dot: "CHR ''.'' \<in> set (butlast (tl d))"
    by (auto simp: isValidEmail_def Let_def l_def rest_def split: list.splits)
  from dot obtain x d' where dx: "d = x # d'" by (cases d) auto
  with dot have "CHR ''.'' \<in> set (butlast d')" by simp
  then obtain u v where uv: "butlast d' = u @ CHR ''.'' # v" by (auto simp: in_set_conv_decomp)
  then have ne: "d' \<noteq> []" by auto
  obtain w where d': "d' = u @ CHR ''.'' # v @ [w]"
    using uv ne append_butlast_last_id[of d'] by (metis append_Cons append_assoc)
  have "email = l @ CHR ''@'' # (x # u) @ CHR ''.'' # (v @ [w])"
    using e r dx d' by simp
  moreover have "list_all emailChar l" by (simp add: l_def list_all_iff) (meson set_takeWhileD)
  moreover have "list_all emailChar (x # u)" "list_all emailChar (v @ [w])"
    using d dx d' by (auto simp: list_all_iff)
  ultimately show ?R using l by blast
next
  assume ?R
  then obtain l a b where e: "email = l @ CHR ''@'' # a @ CHR ''.'' # b"
    and ne: "l \<noteq> []" "a \<noteq> []" "b \<noteq> []"
    and cl: "list_all emailChar l" "list_all emailChar a" "list_all emailChar b" by blast
  have tw: "takeWhile emailChar email = l"
    using cl(1) by (simp add: e list_all_iff takeWhile_append2 emailChar_def)
  have dw: "dropWhile emailChar email = CHR ''@'' # a @ CHR ''.'' # b"
    using cl(1) by (simp add: e list_all_iff dropWhile_append2 emailChar_def)
  have dotc: "emailChar CHR ''.''" by (simp add: emailChar_def isSpace_def)
  obtain x a' where a: "a = x # a'" using ne(2) by (cases a) auto
  have "butlast (a' @ CHR ''.'' # b) = a' @ CHR ''.'' # butlast b"
    using ne(3) by (simp add: butlast_append)
  then show ?L
    using ne cl dotc by (simp add: isValidEmail_def tw dw a)
qed

lemma endsWith_suffix: "endsWith s t \<longleftrightarrow> suffix t s"
proof
  assume "endsWith s t"
  then have "s = take (length s - length t) s @ t"
    by (metis append_take_drop_id endsWith_def)
  then show "suffix t s" by (metis suffixI)
next
  assume "suffix t s"
  then obtain p where "s = p @ t" by (auto simp: suffix_def)
  then show "endsWith s t" by (simp add: endsWith_def)
qed

lemma valid_email_domain:
  assumes "isValidEmail email"
  shows "index (split email CHR ''@'') (Suc 0) = Some (spec_emailDomain email)"
proof -
  from assms obtain l a b where e: "email = l @ CHR ''@'' # a @ CHR ''.'' # b"
    and cl: "list_all emailChar l" "list_all emailChar a" "list_all emailChar b"
    by (auto simp: isValidEmail_iff)
  define d where "d = a @ CHR ''.'' # b"
  have nl: "CHR ''@'' \<notin> set l" using cl(1) by (rule emailChar_not_at)
  have nd: "CHR ''@'' \<notin> set d"
    using emailChar_not_at[OF cl(2)] emailChar_not_at[OF cl(3)] by (simp add: d_def)
  have e': "email = l @ CHR ''@'' # d" by (simp add: e d_def)
  have "split email CHR ''@'' = [l, d]"
    by (simp add: split_def e' splitOn_first_sep[OF nl] splitOn_no_sep[OF nd])
  moreover have "dropWhile (\<lambda>c. c \<noteq> CHR ''@'') email = CHR ''@'' # d"
    unfolding e' using nl by (induction l) auto
  ultimately show ?thesis by (simp add: spec_emailDomain_def)
qed

lemma some_Normal:
  "(\<And>x. x \<in> set xs \<Longrightarrow> p x = Normal (q x)) \<Longrightarrow> some p xs = Normal (\<exists>x \<in> set xs. q x)"
  by (induction xs) auto

lemma isAllowedDomain_eq:
  "isAllowedDomain email allowedDomains =
     Normal (isValidEmail email \<and>
             (case allowedDomains of None \<Rightarrow> True
              | Some domains \<Rightarrow> domains = [] \<or> spec_domainAllowed email domains))"
proof (cases "isValidEmail email")
  case False
  then show ?thesis by (simp add: isAllowedDomain_def)
next
  case True
  then have ne: "email \<noteq> []" by (auto simp: isValidEmail_def)
  show ?thesis
  proof (cases allowedDomains)
    case None
    with True ne show ?thesis by (simp add: isAllowedDomain_def)
  next
    case (Some domains)
    have "some (domainMatches (Some (toLowerCase (spec_emailDomain email)))) domains =
            Normal (\<exists>domain \<in> set domains.
              toLowerCase (spec_emailDomain email) = toLowerCase domain \<or>
              suffix (CHR ''.'' # toLowerCase domain) (toLowerCase (spec_emailDomain email)))"
      by (rule some_Normal) (simp add: domainMatches_def endsWith_suffix)
    with True ne Some show ?thesis
      by (simp add: isAllowedDomain_def valid_email_domain spec_domainAllowed_def)
  qed
qed

lemma isSpace_isDelimiter: "isSpace c \<Longrightarrow> isDelimiter c"
  by (simp add: isDelimiter_def)

lemma trim_no_space: "\<forall>c \<in> set s. \<not> isSpace c \<Longrightarrow> trim s = s"
proof (cases s rule: rev_cases)
  case Nil
  then show ?thesis by (simp add: trim_def)
next
  case (snoc ys y)
  assume a: "\<forall>c \<in> set s. \<not> isSpace c"
  have 1: "dropWhile isSpace s = s" using a by (cases s) auto
  have 2: "dropWhile isSpace (rev s) = rev s" using a snoc by simp
  show ?thesis by (simp add: trim_def 1 2)
qed

lemma toLowerCase_Nil_iff: "toLowerCase s = [] \<longleftrightarrow> s = []"
  by (simp add: toLowerCase_def)

lemma dropWhile_all: "\<forall>c \<in> set s. P c \<Longrightarrow> dropWhile P s = []"
  by (induction s) auto

lemma split_pieces:
  "\<forall>c \<in> set cur. \<not> isDelimiter c \<Longrightarrow>
     filter (\<lambda>email. length email > 0)
       (map (\<lambda>email. toLowerCase (trim email)) (splitDelimiters cur s)) =
     map toLowerCase (spec_words cur s)"
proof (induction cur s rule: splitDelimiters.induct)
  case (1 cur)
  then have "trim cur = cur" by (intro trim_no_space) (auto dest: isSpace_isDelimiter)
  then show ?case by (simp add: toLowerCase_Nil_iff)
next
  case (2 cur c cs)
  have tc: "trim cur = cur" using 2(3) by (intro trim_no_space) (auto dest: isSpace_isDelimiter)
  show ?case
  proof (cases "isDelimiter c")
    case True
    have sw: "\<And>xs. spec_words [] (dropWhile isDelimiter xs) = spec_words [] xs"
    proof -
      fix xs show "spec_words [] (dropWhile isDelimiter xs) = spec_words [] xs"
        by (induction xs) auto
    qed
    from True 2(1) have
      "filter (\<lambda>email. length email > 0)
         (map (\<lambda>email. toLowerCase (trim email)) (splitDelimiters [] (dropWhile isDelimiter cs))) =
       map toLowerCase (spec_words [] (dropWhile isDelimiter cs))" by simp
    with True tc show ?thesis by (simp add: sw toLowerCase_Nil_iff)
  next
    case False
    with 2(2,3) show ?thesis by simp
  qed
qed

lemma bulkTokens_spec: "bulkTokens input = spec_tokens input"
  using split_pieces[of "[]" input] by (simp add: bulkTokens_def spec_tokens_def)

lemma classifyEmail_eq:
  "classifyEmail allowedDomains (results, seen) email =
     Normal (if \<not> isValidEmail email then (results\<lparr>invalid := invalid results @ [email]\<rparr>, seen)
             else if email \<in> seen then (results\<lparr>duplicates := duplicates results @ [email]\<rparr>, seen)
             else if spec_restricted allowedDomains email
               then (results\<lparr>domainRestricted := domainRestricted results @ [email]\<rparr>, seen)
             else (results\<lparr>valid := valid results @ [email]\<rparr>, insert email seen))"
  by (cases allowedDomains)
     (auto simp: classifyEmail_def isAllowedDomain_eq spec_restricted_def nonEmptyList_def)

lemma bucketOf_Nil: "bucketOf b [] = []"
  by (simp add: bucketOf_def)

lemma bucketOf_Cons:
  "bucketOf b ((t, b') # labelled) =
     (if b' = b then t # bucketOf b labelled else bucketOf b labelled)"
  by (simp add: bucketOf_def)

lemma forEach_classify:
  "forEach (classifyEmail allowedDomains) ts (results, seen) =
     Normal (results\<lparr>valid := valid results @ bucketOf Valid (spec_classify allowedDomains seen ts),
                     invalid := invalid results @ bucketOf Invalid (spec_classify allowedDomains seen ts),
                     duplicates := duplicates results @ bucketOf Duplicate (spec_classify allowedDomains seen ts),
                     domainRestricted := domainRestricted results @
                        bucketOf DomainRestricted (spec_classify allowedDomains seen ts)\<rparr>,
             seen \<union> set (bucketOf Valid (spec_classify allowedDomains seen ts)))"
proof (induction ts arbitrary: results seen)
  case Nil
  show ?case by (simp add: bucketOf_Nil)
next
  case (Cons t ts)
  show ?case
    by (simp add: classifyEmail_eq Cons.IH bucketOf_Cons)
qed

subsection \<open>parseBulkEmails\<close>

lemma spec_classify_tokens: "map fst (spec_classify allowedDomains seen ts) = ts"
  by (induction ts arbitrary: seen) auto

lemma bucketOf_partition:
  "mset (bucketOf Valid labelled) + mset (bucketOf Invalid labelled) +
   mset (bucketOf Duplicate labelled) + mset (bucketOf DomainRestricted labelled) =
   mset (map fst labelled)"
proof (induction labelled)
  case Nil
  show ?case by (simp add: bucketOf_Nil)
next
  case (Cons p labelled)
  obtain t b where p: "p = (t, b)" by (cases p)
  show ?case using Cons.IH by (cases b) (simp_all add: p bucketOf_Cons)
qed

lemma bucketOf_Invalid:
  "bucketOf Invalid (spec_classify allowedDomains seen ts) = filter (\<lambda>t. \<not> isValidEmail t) ts"
  by (induction ts arbitrary: seen) (auto simp: bucketOf_Nil bucketOf_Cons)

lemma bucketOf_Duplicate:
  "t \<in> set (bucketOf Duplicate (spec_classify allowedDomains seen ts)) \<Longrightarrow>
     isValidEmail t \<and> (t \<in> seen \<or> t \<in> set (bucketOf Valid (spec_classify allowedDomains seen ts)))"
  by (induction ts arbitrary: seen) (auto simp: bucketOf_Nil bucketOf_Cons split: if_splits)

lemma bucketOf_DomainRestricted:
  "t \<in> set (bucketOf DomainRestricted (spec_classify allowedDomains seen ts)) \<Longrightarrow>
     isValidEmail t \<and> spec_restricted allowedDomains t"
  by (induction ts arbitrary: seen) (auto simp: bucketOf_Nil bucketOf_Cons split: if_splits)

lemma bucketOf_Valid:
  "t \<in> set (bucketOf Valid (spec_classify allowedDomains seen ts)) \<Longrightarrow>
     isValidEmail t \<and> \<not> spec_restricted allowedDomains t \<and> t \<notin> seen"
proof (induction ts arbitrary: seen)
  case Nil
  then show ?case by (simp add: bucketOf_Nil)
next
  case (Cons u ts)
  show ?case
  proof (cases "isValidEmail u \<and> u \<notin> seen \<and> \<not> spec_restricted allowedDomains u")
    case True
    then have "t = u \<or> t \<in> set (bucketOf Valid (spec_classify allowedDomains (insert u seen) ts))"
      using Cons.prems by (simp add: bucketOf_Cons)
    then show ?thesis
    proof
      assume "t = u"
      with True show ?thesis by simp
    next
      assume "t \<in> set (bucketOf Valid (spec_classify allowedDomains (insert u seen) ts))"
      from Cons.IH [OF this] show ?thesis by simp
    qed
  next
    case False
    then have "t \<in> set (bucketOf Valid (spec_classify allowedDomains seen ts))"
      using Cons.prems by (auto simp: bucketOf_Cons split: if_splits)
    from Cons.IH [OF this] show ?thesis .
  qed
qed

lemma bucketOf_Valid_distinct:
  "distinct (bucketOf Valid (spec_classify allowedDomains seen ts))"
  by (induction ts arbitrary: seen) (auto simp: bucketOf_Nil bucketOf_Cons dest: bucketOf_Valid)

lemma parseBulkEmails_eq:
  "parseBulkEmails input allowedDomains =
     Normal \<lparr>valid = bucketOf Valid (spec_classify allowedDomains {} (spec_tokens input)),
             invalid = bucketOf Invalid (spec_classify allowedDomains {} (spec_tokens input)),
             domainRestricted =
               bucketOf DomainRestricted (spec_classify allowedDomains {} (spec_tokens input)),
             duplicates = bucketOf Duplicate (spec_classify allowedDomains {} (spec_tokens input))\<rparr>"
proof (cases "input = []")
  case True
  then show ?thesis
    by (simp add: parseBulkEmails_def emptyBulk_def spec_tokens_def bucketOf_Nil)
next
  case False
  then show ?thesis
    by (simp add: parseBulkEmails_def forEach_classify bulkTokens_spec emptyBulk_def)
qed

lemma count_list_filter: "P t \<Longrightarrow> count_list (filter P ts) t = count_list ts t"
  by (induction ts) auto

lemma parseBulkEmails_example:
  "parseBulkEmails ''a@x.com; a@x.com, bad, b@y.org'' (Some []) =
     Normal \<lparr>valid = [''a@x.com'', ''b@y.org''], invalid = [''bad''],
             domainRestricted = [], duplicates = [''a@x.com'']\<rparr>"
  by code_simp

lemma parseBulkEmails_malformed:
  assumes "parseBulkEmails input allowedDomains = Normal r" and "\<not> isValidEmail t"
  shows "t \<notin> set (duplicates r)"
    and "count_list (invalid r) t = count_list (bulkTokens input) t"
proof -
  have r: "r = \<lparr>valid = bucketOf Valid (spec_classify allowedDomains {} (spec_tokens input)),
             invalid = bucketOf Invalid (spec_classify allowedDomains {} (spec_tokens input)),
             domainRestricted =
               bucketOf DomainRestricted (spec_classify allowedDomains {} (spec_tokens input)),
             duplicates = bucketOf Duplicate (spec_classify allowedDomains {} (spec_tokens input))\<rparr>"
    using assms(1) [unfolded parseBulkEmails_eq] by simp
  have d: "duplicates r = bucketOf Duplicate (spec_classify allowedDomains {} (spec_tokens input))"
    by (subst r) simp
  have i: "invalid r = bucketOf Invalid (spec_classify allowedDomains {} (spec_tokens input))"
    by (subst r) simp
  show "t \<notin> set (duplicates r)"
    unfolding d using assms(2) bucketOf_Duplicate [of t allowedDomains "{}" "spec_tokens input"]
    by (cases "t \<in> set (bucketOf Duplicate (spec_classify allowedDomains {} (spec_tokens input)))")
       simp_all
  show "count_list (invalid r) t = count_list (bulkTokens input) t"
    using assms(2) by (simp add: i bucketOf_Invalid bulkTokens_spec count_list_filter)
qed

text \<open>
  Claim C3. \<^verbatim>\<open>parseBulkEmails\<close> splits its input on any run of comma, semicolon,
  newline or white space, trims and lower-cases each token and drops the empty ones
  (\<open>spec_tokens\<close>); it classifies the tokens in input order by the priority invalid,
  duplicate, domain-restricted, valid, and adds a token to the seen set only when it is
  classified valid (\<open>spec_classify\<close>). Hence a malformed token is never in
  \<^verbatim>\<open>duplicates\<close>, and each of its occurrences is in \<^verbatim>\<open>invalid\<close>. The example
  of the specification evaluates as stated.
\<close>

theorem parseBulkEmails_classifies:
  "bulkTokens input = spec_tokens input \<and>
   parseBulkEmails input allowedDomains =
     Normal \<lparr>valid = bucketOf Valid (spec_classify allowedDomains {} (spec_tokens input)),
             invalid = bucketOf Invalid (spec_classify allowedDomains {} (spec_tokens input)),
             domainRestricted =
               bucketOf DomainRestricted (spec_classify allowedDomains {} (spec_tokens input)),
             duplicates = bucketOf Duplicate (spec_classify allowedDomains {} (spec_tokens input))\<rparr> \<and>
   (\<forall>r t. parseBulkEmails input allowedDomains = Normal r \<and> \<not> isValidEmail t \<longrightarrow>
      t \<notin> set (duplicates r) \<and> count_list (invalid r) t = count_list (bulkTokens input) t) \<and>
   parseBulkEmails ''a@x.com; a@x.com, bad, b@y.org'' (Some []) =
     Normal \<lparr>valid = [''a@x.com'', ''b@y.org''], invalid = [''bad''],
             domainRestricted = [], duplicates = [''a@x.com'']\<rparr>"
proof -
  have "\<forall>r t. parseBulkEmails input allowedDomains = Normal r \<and> \<not> isValidEmail t \<longrightarrow>
      t \<notin> set (duplicates r) \<and> count_list (invalid r) t = count_list (bulkTokens input) t"
  proof (intro allI impI)
    fix r t
    assume a: "parseBulkEmails input allowedDomains = Normal r \<and> \<not> isValidEmail t"
    show "t \<notin> set (duplicates r) \<and> count_list (invalid r) t = count_list (bulkTokens input) t"
      using parseBulkEmails_malformed [of input allowedDomains r t] a by (intro conjI) simp_all
  qed
  then show ?thesis
    by (intro conjI bulkTokens_spec parseBulkEmails_eq parseBulkEmails_example)
qed

text \<open>
  The malformed token \<^verbatim>\<open>bad\<close> occurs twice in the input; both occurrences are
  classified invalid.
\<close>

theorem parseBulkEmails_classifies_witness:
  "\<not> isValidEmail ''bad'' \<and>
   parseBulkEmails ''bad, x@y.z; bad'' None =
     Normal \<lparr>valid = [''x@y.z''], invalid = [''bad'', ''bad''],
             domainRestricted = [], duplicates = []\<rparr> \<and>
   ''bad'' \<notin> set (duplicates \<lparr>valid = [''x@y.z''], invalid = [''bad'', ''bad''],
             domainRestricted = [], duplicates = []\<rparr>) \<and>
   count_list (invalid \<lparr>valid = [''x@y.z''], invalid = [''bad'', ''bad''],
             domainRestricted = [], duplicates = []\<rparr>) ''bad'' =
     count_list (bulkTokens ''bad, x@y.z; bad'') ''bad''"
proof -
  have h: "\<not> isValidEmail ''bad''" by code_simp
  have p: "parseBulkEmails ''bad, x@y.z; bad'' None =
     Normal \<lparr>valid = [''x@y.z''], invalid = [''bad'', ''bad''],
             domainRestricted = [], duplicates = []\<rparr>" by code_simp
  note c = parseBulkEmails_classifies [of "''bad, x@y.z; bad''" None]
  note c3 = c [THEN conjunct2, THEN conjunct2, THEN conjunct1, rule_format, OF conjI, OF p h]
  show ?thesis
    by (intro conjI h p c3 [THEN conjunct1] c3 [THEN conjunct2])
qed

text \<open>
  Claim C4 as stated fails: the buckets are not pairwise disjoint. A repeated valid
  email is in \<^verbatim>\<open>valid\<close> (first occurrence) and in \<^verbatim>\<open>duplicates\<close> (the others).
\<close>

theorem parseBulkEmails_buckets_overlap:
  "map_completion (\<lambda>r. set (valid r) \<inter> set (duplicates r))
     (parseBulkEmails ''a@x.com a@x.com'' (Some [])) = Normal {''a@x.com''}"
  by code_simp

text \<open>
  Claim C4, amended. For every input and allow-list \<^verbatim>\<open>parseBulkEmails\<close> returns,
  and its four buckets partition the multiset of the trimmed, lower-cased, non-empty
  tokens: every occurrence of a token is in exactly one bucket. \<^verbatim>\<open>invalid\<close>,
  \<^verbatim>\<open>domainRestricted\<close> and \<^verbatim>\<open>valid\<close> are pairwise disjoint, and
  \<^verbatim>\<open>duplicates\<close> is disjoint from \<^verbatim>\<open>invalid\<close> and \<^verbatim>\<open>domainRestricted\<close>;
  every entry of \<^verbatim>\<open>duplicates\<close> is also an entry of \<^verbatim>\<open>valid\<close>, which has no
  repetitions.
\<close>

theorem parseBulkEmails_partition:
  "\<exists>r. parseBulkEmails input allowedDomains = Normal r \<and>
     mset (valid r) + mset (invalid r) + mset (duplicates r) + mset (domainRestricted r) =
       mset (bulkTokens input) \<and>
     set (invalid r) \<inter> set (valid r) = {} \<and>
     set (invalid r) \<inter> set (duplicates r) = {} \<and>
     set (invalid r) \<inter> set (domainRestricted r) = {} \<and>
     set (domainRestricted r) \<inter> set (valid r) = {} \<and>
     set (domainRestricted r) \<inter> set (duplicates r) = {} \<and>
     set (duplicates r) \<subseteq> set (valid r) \<and>
     distinct (valid r)"
proof -
  define L where "L = spec_classify allowedDomains {} (spec_tokens input)"
  define r where "r = \<lparr>valid = bucketOf Valid L, invalid = bucketOf Invalid L,
                         domainRestricted = bucketOf DomainRestricted L,
                         duplicates = bucketOf Duplicate L\<rparr>"
  have sel: "valid r = bucketOf Valid L" "invalid r = bucketOf Invalid L"
    "domainRestricted r = bucketOf DomainRestricted L" "duplicates r = bucketOf Duplicate L"
    by (simp_all add: r_def)
  have p: "parseBulkEmails input allowedDomains = Normal r"
    unfolding r_def L_def by (rule parseBulkEmails_eq)
  have inv: "\<And>t. t \<in> set (bucketOf Invalid L) \<Longrightarrow> \<not> isValidEmail t"
    by (simp add: L_def bucketOf_Invalid)
  have val: "\<And>t. t \<in> set (bucketOf Valid L) \<Longrightarrow>
               isValidEmail t \<and> \<not> spec_restricted allowedDomains t"
    unfolding L_def using bucketOf_Valid by blast
  have res: "\<And>t. t \<in> set (bucketOf DomainRestricted L) \<Longrightarrow>
               isValidEmail t \<and> spec_restricted allowedDomains t"
    unfolding L_def using bucketOf_DomainRestricted by blast
  have dup: "\<And>t. t \<in> set (bucketOf Duplicate L) \<Longrightarrow>
               isValidEmail t \<and> t \<in> set (bucketOf Valid L)"
    unfolding L_def using bucketOf_Duplicate by blast
  have 1: "mset (valid r) + mset (invalid r) + mset (duplicates r) + mset (domainRestricted r) =
       mset (bulkTokens input)"
    using bucketOf_partition [of L]
    by (simp add: sel L_def spec_classify_tokens bulkTokens_spec)
  have 2: "set (invalid r) \<inter> set (valid r) = {}" unfolding sel using inv val by blast
  have 3: "set (invalid r) \<inter> set (duplicates r) = {}" unfolding sel using inv dup by blast
  have 4: "set (invalid r) \<inter> set (domainRestricted r) = {}" unfolding sel using inv res by blast
  have 5: "set (domainRestricted r) \<inter> set (valid r) = {}" unfolding sel using val res by blast
  have 6: "set (domainRestricted r) \<inter> set (duplicates r) = {}"
    unfolding sel using val res dup by blast
  have 7: "set (duplicates r) \<subseteq> set (valid r)" unfolding sel using dup by blast
  have 8: "distinct (valid r)" unfolding sel L_def by (rule bucketOf_Valid_distinct)
  from p 1 2 3 4 5 6 7 8 show ?thesis by blast
qed

text \<open>
  An input with a repeated valid email, a malformed token and a restricted domain.
\<close>

theorem parseBulkEmails_partition_witness:
  "\<exists>r. parseBulkEmails ''a@x.com A@X.com, bad b@y.org'' (Some [''x.com'']) = Normal r \<and>
     mset (valid r) + mset (invalid r) + mset (duplicates r) + mset (domainRestricted r) =
       mset (bulkTokens ''a@x.com A@X.com, bad b@y.org'') \<and>
     set (invalid r) \<inter> set (valid r) = {} \<and>
     set (invalid r) \<inter> set (duplicates r) = {} \<and>
     set (invalid r) \<inter> set (domainRestricted r) = {} \<and>
     set (domainRestricted r) \<inter> set (valid r) = {} \<and>
     set (domainRestricted r) \<inter> set (duplicates r) = {} \<and>
     set (duplicates r) \<subseteq> set (valid r) \<and>
     distinct (valid r)"
  by (rule parseBulkEmails_partition)

text \<open>
  Claim C5 as stated fails: with an empty or absent allow-list the result is false for
  an email that is not syntactically valid.
\<close>

theorem isAllowedDomain_invalid_email:
  "isAllowedDomain ''bad'' (Some []) = Normal False \<and> isAllowedDomain ''bad'' None = Normal False"
  by code_simp

text \<open>
  Claim C5, amended. \<^verbatim>\<open>isAllowedDomain\<close> never throws. It returns false for an email
  that is not syntactically valid. For a valid email it returns true when the
  allow-list is absent or empty, and otherwise true iff the lower-cased part after the
  \<^verbatim>\<open>@\<close> equals some lower-cased entry or ends with a dot followed by that entry.
  The two examples of the specification evaluate as stated.
\<close>

theorem isAllowedDomain_spec:
  "isAllowedDomain email allowedDomains =
     Normal (isValidEmail email \<and>
             (case allowedDomains of
                None \<Rightarrow> True
              | Some domains \<Rightarrow>
                  domains = [] \<or>
                  (\<exists>domain \<in> set domains.
                     toLowerCase (spec_emailDomain email) = toLowerCase domain \<or>
                     suffix (CHR ''.'' # toLowerCase domain)
                            (toLowerCase (spec_emailDomain email))))) \<and>
   isAllowedDomain ''u@sub.example.com'' (Some [''example.com'']) = Normal True \<and>
   isAllowedDomain ''u@other.com'' (Some [''example.com'']) = Normal False"
proof (intro conjI)
  show "isAllowedDomain ''u@sub.example.com'' (Some [''example.com'']) = Normal True"
    by code_simp
  show "isAllowedDomain ''u@other.com'' (Some [''example.com'']) = Normal False"
    by code_simp
  show "isAllowedDomain email allowedDomains =
     Normal (isValidEmail email \<and>
             (case allowedDomains of
                None \<Rightarrow> True
              | Some domains \<Rightarrow>
                  domains = [] \<or>
                  (\<exists>domain \<in> set domains.
                     toLowerCase (spec_emailDomain email) = toLowerCase domain \<or>
                     suffix (CHR ''.'' # toLowerCase domain)
                            (toLowerCase (spec_emailDomain email)))))"
    by (cases allowedDomains) (simp_all add: isAllowedDomain_eq spec_domainAllowed_def)
qed

text \<open>A sub-domain of an entry written in another case is allowed.\<close>

theorem isAllowedDomain_spec_witness:
  "isValidEmail ''u@sub.example.com'' \<and>
   suffix (CHR ''.'' # toLowerCase ''example.com'')
          (toLowerCase (spec_emailDomain ''u@sub.example.com'')) \<and>
   isAllowedDomain ''u@sub.example.com'' (Some [''Example.COM'']) = Normal True"
proof -
  have v: "isValidEmail ''u@sub.example.com''" by code_simp
  have x: "suffix (CHR ''.'' # toLowerCase ''example.com'')
          (toLowerCase (spec_emailDomain ''u@sub.example.com''))" by code_simp
  have y: "toLowerCase ''Example.COM'' = toLowerCase ''example.com''" by code_simp
  show ?thesis
    using isAllowedDomain_spec [of "''u@sub.example.com''" "Some [''Example.COM'']"] v x y
    by simp
qed

lemma normalizeEmails_valid: "e \<in> set (normalizeEmails emails) \<Longrightarrow> isValidEmail e"
  by (cases emails) (auto simp: normalizeEmails_def split: if_splits)

lemma batchStep_eq:
  "batchStep allowedDomains results email =
     Normal (if \<not> isValidEmail email then results\<lparr>invalid := invalid results @ [email]\<rparr>
             else if spec_restricted allowedDomains email
               then results\<lparr>domainRestricted := domainRestricted results @ [email]\<rparr>
             else results\<lparr>valid := valid results @ [email]\<rparr>)"
  by (cases allowedDomains)
     (simp_all add: batchStep_def isAllowedDomain_eq spec_restricted_def)

lemma forEach_batchStep:
  "\<forall>e \<in> set es. isValidEmail e \<Longrightarrow>
   forEach (batchStep allowedDomains) es results =
     Normal (results\<lparr>valid := valid results @
                        filter (\<lambda>e. \<not> spec_restricted allowedDomains e) es,
                     domainRestricted := domainRestricted results @
                        filter (spec_restricted allowedDomains) es\<rparr>)"
proof (induction es arbitrary: results)
  case Nil
  show ?case by simp
next
  case (Cons e es)
  then have v: "isValidEmail e" and vs: "\<forall>e \<in> set es. isValidEmail e" by simp_all
  have step: "batchStep allowedDomains results e =
      Normal (if spec_restricted allowedDomains e
              then results\<lparr>domainRestricted := domainRestricted results @ [e]\<rparr>
              else results\<lparr>valid := valid results @ [e]\<rparr>)"
    by (simp add: batchStep_eq v)
  show ?case by (simp add: step Cons.IH [OF vs])
qed

text \<open>
  Claim C10. Every email that \<^verbatim>\<open>normalizeEmails\<close> returns is syntactically valid,
  so \<^verbatim>\<open>validateEmailBatch\<close> never reaches the branch that pushes into
  \<^verbatim>\<open>invalid\<close>: that bucket is empty for every input and allow-list. The other
  two buckets keep every normalized email, repetitions included, in order: there is no
  de-duplication.
\<close>

theorem validateEmailBatch_invalid_empty:
  "(\<forall>e \<in> set (normalizeEmails emails). isValidEmail e) \<and>
   validateEmailBatch emails allowedDomains =
     Normal \<lparr>valid = filter (\<lambda>e. \<not> spec_restricted allowedDomains e) (normalizeEmails emails),
             invalid = [],
             domainRestricted = filter (spec_restricted allowedDomains) (normalizeEmails emails)\<rparr> \<and>
   validateEmailBatch (Str ''a@x.com, A@x.com ,a@x.com'') (Some []) =
     Normal \<lparr>valid = [''a@x.com'', ''a@x.com'', ''a@x.com''], invalid = [],
             domainRestricted = []\<rparr>"
proof (intro conjI ballI)
  fix e assume "e \<in> set (normalizeEmails emails)"
  then show "isValidEmail e" by (rule normalizeEmails_valid)
next
  have "\<forall>e \<in> set (normalizeEmails emails). isValidEmail e"
    using normalizeEmails_valid by blast
  from forEach_batchStep [OF this]
  show "validateEmailBatch emails allowedDomains =
     Normal \<lparr>valid = filter (\<lambda>e. \<not> spec_restricted allowedDomains e) (normalizeEmails emails),
             invalid = [],
             domainRestricted = filter (spec_restricted allowedDomains) (normalizeEmails emails)\<rparr>"
    by (simp add: validateEmailBatch_def emptyBatch_def)
next
  show "validateEmailBatch (Str ''a@x.com, A@x.com ,a@x.com'') (Some []) =
     Normal \<lparr>valid = [''a@x.com'', ''a@x.com'', ''a@x.com''], invalid = [],
             domainRestricted = []\<rparr>"
    by code_simp
qed

text \<open>
  An array with a non-string element, a malformed string and a repeated email.
\<close>

theorem validateEmailBatch_invalid_empty_witness:
  "normalizeEmails (Arr [Str '' B@Y.org'', Num 3, Str ''bad'', Str ''b@y.org'']) =
     [''b@y.org'', ''b@y.org''] \<and>
   isValidEmail ''b@y.org'' \<and>
   validateEmailBatch (Arr [Str '' B@Y.org'', Num 3, Str ''bad'', Str ''b@y.org''])
       (Some [''x.com'']) =
     Normal \<lparr>valid = [], invalid = [], domainRestricted = [''b@y.org'', ''b@y.org'']\<rparr>"
proof -
  have n: "normalizeEmails (Arr [Str '' B@Y.org'', Num 3, Str ''bad'', Str ''b@y.org'']) =
     [''b@y.org'', ''b@y.org'']" by code_simp
  have r: "spec_restricted (Some [''x.com'']) ''b@y.org''" by code_simp
  note t = validateEmailBatch_invalid_empty
    [of "Arr [Str '' B@Y.org'', Num 3, Str ''bad'', Str ''b@y.org'']" "Some [''x.com'']"]
  have v: "isValidEmail ''b@y.org''" using t [THEN conjunct1] by (simp add: n)
  have b: "validateEmailBatch (Arr [Str '' B@Y.org'', Num 3, Str ''bad'', Str ''b@y.org''])
       (Some [''x.com'']) =
     Normal \<lparr>valid = [], invalid = [], domainRestricted = [''b@y.org'', ''b@y.org'']\<rparr>"
    using t [THEN conjunct2, THEN conjunct1] by (simp add: n r)
  show ?thesis by (intro conjI n v b)
qed

section \<open>Properties of the notification facade\<close>

lemmas prog_defs = tryCatch_def bnd_def await_def ret_def emit_def getState_def

lemma getNotifications_eq:
  "getNotifications api filters s =
     (case getAll api filters of
        Normal result \<Rightarrow>
          (Normal \<lparr>success = True,
                   data = Present (orElse (orElse (getOpt result ''data'') result) (Arr [])),
                   error = Null\<rparr>, s, [])
      | Throw e \<Rightarrow>
          (Normal \<lparr>success = False, data = Present (Arr []), error = Str (message e)\<rparr>, s,
           [ConsoleError ''Failed to fetch notifications, falling back to mock:'' e]))"
  by (simp add: getNotifications_def prog_defs split: completion.splits)

lemma createNotification_eq:
  "createNotification api notificationData s =
     (case create api notificationData of
        Normal result \<Rightarrow>
          (Normal \<lparr>success = True, data = Present (orElse (getOpt result ''data'') result),
                   error = Null\<rparr>, s, [])
      | Throw e \<Rightarrow>
          (Normal \<lparr>success = False, data = Absent, error = Str (message e)\<rparr>, s,
           [ConsoleError ''Failed to create notification:'' e]))"
  by (simp add: createNotification_def prog_defs split: completion.splits)

lemma markNotificationAsRead_eq:
  "markNotificationAsRead api notificationId s =
     (case markAsRead api notificationId of
        Normal result \<Rightarrow>
          (Normal \<lparr>success = True, data = Present (orElse (getOpt result ''data'') result),
                   error = Null\<rparr>, s, [])
      | Throw e \<Rightarrow>
          (Normal \<lparr>success = False, data = Absent, error = Str (message e)\<rparr>, s,
           [ConsoleError ''Failed to mark notification as read:'' e]))"
  by (simp add: markNotificationAsRead_def prog_defs split: completion.splits)

lemma markAllNotificationsAsRead_eq:
  "markAllNotificationsAsRead api s =
     (case markAllAsRead api of
        Normal result \<Rightarrow>
          (Normal \<lparr>success = True, data = Present (orElse (getOpt result ''data'') result),
                   error = Null\<rparr>, s, [])
      | Throw e \<Rightarrow>
          (Normal \<lparr>success = False, data = Absent, error = Str (message e)\<rparr>, s,
           [ConsoleError ''Failed to mark all notifications as read:'' e]))"
  by (simp add: markAllNotificationsAsRead_def prog_defs split: completion.splits)

lemma deleteNotification_eq:
  "deleteNotification api notificationId s =
     (case delete api notificationId of
        Normal result \<Rightarrow>
          (Normal \<lparr>success = True, data = Present (orElse (getOpt result ''data'') result),
                   error = Null\<rparr>, s, [])
      | Throw e \<Rightarrow>
          (Normal \<lparr>success = False, data = Absent, error = Str (message e)\<rparr>, s,
           [ConsoleError ''Failed to delete notification:'' e]))"
  by (simp add: deleteNotification_def prog_defs split: completion.splits)

lemma getNotificationStats_eq:
  "getNotificationStats api s =
     (case getStats api of
        Normal result \<Rightarrow>
          (Normal \<lparr>success = True, data = Present (orElse (getOpt result ''data'') result),
                   error = Null\<rparr>, s, [])
      | Throw e \<Rightarrow>
          (Normal \<lparr>success = False, data = Absent, error = Str (message e)\<rparr>, s,
           [ConsoleError ''Failed to fetch notification stats:'' e]))"
  by (simp add: getNotificationStats_def prog_defs split: completion.splits)

text \<open>
  Claim C6. Whatever error the API client throws, each of the six facade operations
  completes normally, leaves the state alone and returns a failure envelope whose
  \<^verbatim>\<open>error\<close> field is the message of the thrown error; and no facade operation
  throws, whatever the API client does.
\<close>

theorem facade_never_throws:
  "(\<forall>e. getAll api filters = Throw e \<longrightarrow>
      (\<exists>env evs. getNotifications api filters s = (Normal env, s, evs) \<and>
         \<not> success env \<and> error env = Str (message e))) \<and>
   (\<forall>e. create api notificationData = Throw e \<longrightarrow>
      (\<exists>env evs. createNotification api notificationData s = (Normal env, s, evs) \<and>
         \<not> success env \<and> error env = Str (message e))) \<and>
   (\<forall>e. markAsRead api notificationId = Throw e \<longrightarrow>
      (\<exists>env evs. markNotificationAsRead api notificationId s = (Normal env, s, evs) \<and>
         \<not> success env \<and> error env = Str (message e))) \<and>
   (\<forall>e. markAllAsRead api = Throw e \<longrightarrow>
      (\<exists>env evs. markAllNotificationsAsRead api s = (Normal env, s, evs) \<and>
         \<not> success env \<and> error env = Str (message e))) \<and>
   (\<forall>e. delete api notificationId = Throw e \<longrightarrow>
      (\<exists>env evs. deleteNotification api notificationId s = (Normal env, s, evs) \<and>
         \<not> success env \<and> error env = Str (message e))) \<and>
   (\<forall>e. getStats api = Throw e \<longrightarrow>
      (\<exists>env evs. getNotificationStats api s = (Normal env, s, evs) \<and>
         \<not> success env \<and> error env = Str (message e))) \<and>
   (\<exists>env evs. getNotifications api filters s = (Normal env, s, evs)) \<and>
   (\<exists>env evs. createNotification api notificationData s = (Normal env, s, evs)) \<and>
   (\<exists>env evs. markNotificationAsRead api notificationId s = (Normal env, s, evs)) \<and>
   (\<exists>env evs. markAllNotificationsAsRead api s = (Normal env, s, evs)) \<and>
   (\<exists>env evs. deleteNotification api notificationId s = (Normal env, s, evs)) \<and>
   (\<exists>env evs. getNotificationStats api s = (Normal env, s, evs))"
  by (intro conjI allI impI)
     (simp_all add: getNotifications_eq createNotification_eq markNotificationAsRead_eq markAllNotificationsAsRead_eq deleteNotification_eq getNotificationStats_eq split: completion.splits)

text \<open>A client whose every call rejects with a network error.\<close>

theorem facade_never_throws_witness:
  "getAll (rejectingClient (Error ''Network Error'')) (Obj []) = Throw (Error ''Network Error'') \<and>
   (\<exists>env evs. getNotifications (rejectingClient (Error ''Network Error'')) (Obj []) () = (Normal env, (), evs) \<and>
      \<not> success env \<and> error env = Str ''Network Error'') \<and>
   create (rejectingClient (Error ''Network Error'')) (Obj []) = Throw (Error ''Network Error'') \<and>
   (\<exists>env evs. createNotification (rejectingClient (Error ''Network Error'')) (Obj []) () = (Normal env, (), evs) \<and>
      \<not> success env \<and> error env = Str ''Network Error'') \<and>
   markAsRead (rejectingClient (Error ''Network Error'')) (Str ''n1'') = Throw (Error ''Network Error'') \<and>
   (\<exists>env evs. markNotificationAsRead (rejectingClient (Error ''Network Error'')) (Str ''n1'') () = (Normal env, (), evs) \<and>
      \<not> success env \<and> error env = Str ''Network Error'') \<and>
   markAllAsRead (rejectingClient (Error ''Network Error'')) = Throw (Error ''Network Error'') \<and>
   (\<exists>env evs. markAllNotificationsAsRead (rejectingClient (Error ''Network Error'')) () = (Normal env, (), evs) \<and>
      \<not> success env \<and> error env = Str ''Network Error'') \<and>
   delete (rejectingClient (Error ''Network Error'')) (Str ''n1'') = Throw (Error ''Network Error'') \<and>
   (\<exists>env evs. deleteNotification (rejectingClient (Error ''Network Error'')) (Str ''n1'') () = (Normal env, (), evs) \<and>
      \<not> success env \<and> error env = Str ''Network Error'') \<and>
   getStats (rejectingClient (Error ''Network Error'')) = Throw (Error ''Network Error'') \<and>
   (\<exists>env evs. getNotificationStats (rejectingClient (Error ''Network Error'')) () = (Normal env, (), evs) \<and>
      \<not> success env \<and> error env = Str ''Network Error'')"
proof -
  note t = facade_never_throws [of "rejectingClient (Error ''Network Error'')" "Obj []" "()" "Obj []" "Str ''n1''"]
  have c: "getAll (rejectingClient (Error ''Network Error'')) (Obj []) = Throw (Error ''Network Error'')"
    "create (rejectingClient (Error ''Network Error'')) (Obj []) = Throw (Error ''Network Error'')"
    "markAsRead (rejectingClient (Error ''Network Error'')) (Str ''n1'') = Throw (Error ''Network Error'')"
    "markAllAsRead (rejectingClient (Error ''Network Error'')) = Throw (Error ''Network Error'')"
    "delete (rejectingClient (Error ''Network Error'')) (Str ''n1'') = Throw (Error ''Network Error'')"
    "getStats (rejectingClient (Error ''Network Error'')) = Throw (Error ''Network Error'')"
    by (simp_all add: rejectingClient_def)
  from t c show ?thesis by simp
qed

text \<open>
  Claim C2 as stated fails: on failure \<^verbatim>\<open>createNotification\<close> returns an envelope
  that has no \<^verbatim>\<open>data\<close> field.
\<close>

theorem createNotification_failure_no_data:
  "createNotification (rejectingClient (Error ''Network Error'')) (Obj []) () =
     (Normal \<lparr>success = False, data = Absent, error = Str ''Network Error''\<rparr>, (),
      [ConsoleError ''Failed to create notification:'' (Error ''Network Error'')])"
  by (simp add: createNotification_eq rejectingClient_def)

text \<open>
  Claim C2, amended. Every facade operation returns an envelope with the fields
  \<^verbatim>\<open>success\<close> and \<^verbatim>\<open>error\<close>. When the call of the API client resolves,
  \<^verbatim>\<open>success\<close> is true, \<^verbatim>\<open>data\<close> is present (the unwrapped result) and
  \<^verbatim>\<open>error\<close> is \<^verbatim>\<open>null\<close>. When it throws, \<^verbatim>\<open>success\<close> is false and
  \<^verbatim>\<open>error\<close> is the message of the thrown error; \<^verbatim>\<open>getNotifications\<close> sets
  \<^verbatim>\<open>data\<close> to the empty sequence, and the other five operations return an envelope
  without a \<^verbatim>\<open>data\<close> field.
\<close>

theorem facade_envelope_shape:
  "(\<forall>result. getAll api filters = Normal result \<longrightarrow>
      getNotifications api filters s =
        (Normal \<lparr>success = True,
                 data = Present (orElse (orElse (getOpt result ''data'') result) (Arr [])),
                 error = Null\<rparr>, s, [])) \<and>
   (\<forall>e. getAll api filters = Throw e \<longrightarrow>
      getNotifications api filters s =
        (Normal \<lparr>success = False, data = Present (Arr []), error = Str (message e)\<rparr>, s,
         [ConsoleError ''Failed to fetch notifications, falling back to mock:'' e])) \<and>
   (\<forall>result. create api notificationData = Normal result \<longrightarrow>
      createNotification api notificationData s =
        (Normal \<lparr>success = True, data = Present (orElse (getOpt result ''data'') result),
                 error = Null\<rparr>, s, [])) \<and>
   (\<forall>e. create api notificationData = Throw e \<longrightarrow>
      createNotification api notificationData s =
        (Normal \<lparr>success = False, data = Absent, error = Str (message e)\<rparr>, s,
         [ConsoleError ''Failed to create notification:'' e])) \<and>
   (\<forall>result. markAsRead api notificationId = Normal result \<longrightarrow>
      markNotificationAsRead api notificationId s =
        (Normal \<lparr>success = True, data = Present (orElse (getOpt result ''data'') result),
                 error = Null\<rparr>, s, [])) \<and>
   (\<forall>e. markAsRead api notificationId = Throw e \<longrightarrow>
      markNotificationAsRead api notificationId s =
        (Normal \<lparr>success = False, data = Absent, error = Str (message e)\<rparr>, s,
         [ConsoleError ''Failed to mark notification as read:'' e])) \<and>
   (\<forall>result. markAllAsRead api = Normal result \<longrightarrow>
      markAllNotificationsAsRead api s =
        (Normal \<lparr>success = True, data = Present (orElse (getOpt result ''data'') result),
                 error = Null\<rparr>, s, [])) \<and>
   (\<forall>e. markAllAsRead api = Throw e \<longrightarrow>
      markAllNotificationsAsRead api s =
        (Normal \<lparr>success = False, data = Absent, error = Str (message e)\<rparr>, s,
         [ConsoleError ''Failed to mark all notifications as read:'' e])) \<and>
   (\<forall>result. delete api notificationId = Normal result \<longrightarrow>
      deleteNotification api notificationId s =
        (Normal \<lparr>success = True, data = Present (orElse (getOpt result ''data'') result),
                 error = Null\<rparr>, s, [])) \<and>
   (\<forall>e. delete api notificationId = Throw e \<longrightarrow>
      deleteNotification api notificationId s =
        (Normal \<lparr>success = False, data = Absent, error = Str (message e)\<rparr>, s,
         [ConsoleError ''Failed to delete notification:'' e])) \<and>
   (\<forall>result. getStats api = Normal result \<longrightarrow>
      getNotificationStats api s =
        (Normal \<lparr>success = True, data = Present (orElse (getOpt result ''data'') result),
                 error = Null\<rparr>, s, [])) \<and>
   (\<forall>e. getStats api = Throw e \<longrightarrow>
      getNotificationStats api s =
        (Normal \<lparr>success = False, data = Absent, error = Str (message e)\<rparr>, s,
         [ConsoleError ''Failed to fetch notification stats:'' e]))"
  by (intro conjI allI impI)
     (simp_all add: getNotifications_eq createNotification_eq markNotificationAsRead_eq
        markAllNotificationsAsRead_eq deleteNotification_eq getNotificationStats_eq)

text \<open>Two failures and one success.\<close>

theorem facade_envelope_shape_witness:
  "getAll (rejectingClient (Error ''Network Error'')) (Obj []) = Throw (Error ''Network Error'') \<and>
   getNotifications (rejectingClient (Error ''Network Error'')) (Obj []) () =
     (Normal \<lparr>success = False, data = Present (Arr []), error = Str ''Network Error''\<rparr>, (),
      [ConsoleError ''Failed to fetch notifications, falling back to mock:''
         (Error ''Network Error'')]) \<and>
   delete (rejectingClient (Error ''Network Error'')) (Str ''n1'') =
     Throw (Error ''Network Error'') \<and>
   deleteNotification (rejectingClient (Error ''Network Error'')) (Str ''n1'') () =
     (Normal \<lparr>success = False, data = Absent, error = Str ''Network Error''\<rparr>, (),
      [ConsoleError ''Failed to delete notification:'' (Error ''Network Error'')]) \<and>
   getStats (resolvingClient (Obj [(''data'', Obj [(''unread'', Num 2)])])) =
     Normal (Obj [(''data'', Obj [(''unread'', Num 2)])]) \<and>
   getNotificationStats (resolvingClient (Obj [(''data'', Obj [(''unread'', Num 2)])])) () =
     (Normal \<lparr>success = True, data = Present (Obj [(''unread'', Num 2)]), error = Null\<rparr>,
      (), [])"
proof -
  note t = facade_envelope_shape
    [of "rejectingClient (Error ''Network Error'')" "Obj []" "()" "Obj []" "Str ''n1''"]
  note u = facade_envelope_shape
    [of "resolvingClient (Obj [(''data'', Obj [(''unread'', Num 2)])])" "Obj []" "()" "Obj []"
        "Str ''n1''"]
  have a: "getAll (rejectingClient (Error ''Network Error'')) (Obj []) =
      Throw (Error ''Network Error'')"
    by (simp add: rejectingClient_def)
  have b: "delete (rejectingClient (Error ''Network Error'')) (Str ''n1'') =
      Throw (Error ''Network Error'')"
    by (simp add: rejectingClient_def)
  have c: "getStats (resolvingClient (Obj [(''data'', Obj [(''unread'', Num 2)])])) =
      Normal (Obj [(''data'', Obj [(''unread'', Num 2)])])"
    by (simp add: resolvingClient_def)
  have 1: "getNotifications (rejectingClient (Error ''Network Error'')) (Obj []) () =
     (Normal \<lparr>success = False, data = Present (Arr []), error = Str ''Network Error''\<rparr>, (),
      [ConsoleError ''Failed to fetch notifications, falling back to mock:''
         (Error ''Network Error'')])"
    using t a by simp
  have 2: "deleteNotification (rejectingClient (Error ''Network Error'')) (Str ''n1'') () =
     (Normal \<lparr>success = False, data = Absent, error = Str ''Network Error''\<rparr>, (),
      [ConsoleError ''Failed to delete notification:'' (Error ''Network Error'')])"
    using t b by simp
  have 3: "getNotificationStats (resolvingClient (Obj [(''data'', Obj [(''unread'', Num 2)])])) () =
     (Normal \<lparr>success = True, data = Present (Obj [(''unread'', Num 2)]), error = Null\<rparr>,
      (), [])"
    using u c by (simp add: orElse_def)
  from a 1 b 2 c 3 show ?thesis by (intro conjI)
qed

text \<open>
  \<^verbatim>\<open>checkFirstTimeUser\<close> on fetches that succeed: an empty list, a list without a
  welcome entry, a welcome entry by type, a welcome entry by metadata inside a
  \<^verbatim>\<open>data\<close> wrapper, and a payload that is not a list (the \<^verbatim>\<open>TypeError\<close> is
  caught).
\<close>

lemma checkFirstTimeUser_examples:
  "fst (checkFirstTimeUser (resolvingClient (Arr [])) ()) = Normal True"
  "fst (checkFirstTimeUser (resolvingClient (Arr [Obj [(''type'', Str ''task_assigned'')]])) ()) = Normal True"
  "fst (checkFirstTimeUser (resolvingClient (Arr [Obj [(''type'', Str ''welcome'')]])) ()) = Normal False"
  "fst (checkFirstTimeUser (resolvingClient (Obj [(''data'', Arr [Obj [(''type'', Str ''info''), (''notification_metadata'', Obj [(''isWelcome'', Bool True)])]])])) ()) = Normal False"
  "fst (checkFirstTimeUser (resolvingClient (Obj [(''notifications'', Arr [])])) ()) = Normal False"
  by (simp_all add: checkFirstTimeUser_def getNotifications_eq resolvingClient_def prog_defs
        orElse_def getProp_def isWelcomeEntry_def)

text \<open>
  When the fetch succeeds with a list of notification objects, the result is true iff
  the list is empty or has no entry flagged as a welcome notification.
\<close>

lemma isWelcomeEntry_Obj:
  "isWelcomeEntry (Obj ps) =
     Normal (getOpt (Obj ps) ''type'' = Str ''welcome'' \<or>
             truthy (getOpt (getOpt (Obj ps) ''notification_metadata'') ''isWelcome''))"
  by (simp add: isWelcomeEntry_def getProp_def)

lemma checkFirstTimeUser_success:
  assumes "getAll api (Obj [(''limit'', Num 1)]) = Normal (Arr ns)"
    and "\<forall>n \<in> set ns. \<exists>ps. n = Obj ps"
  shows "checkFirstTimeUser api s =
     (Normal (ns = [] \<or>
              \<not> (\<exists>n \<in> set ns. getOpt n ''type'' = Str ''welcome'' \<or>
                   truthy (getOpt (getOpt n ''notification_metadata'') ''isWelcome''))),
      s, [])"
proof -
  have w: "some isWelcomeEntry ns =
      Normal (\<exists>n \<in> set ns. getOpt n ''type'' = Str ''welcome'' \<or>
                truthy (getOpt (getOpt n ''notification_metadata'') ''isWelcome''))"
  proof (rule some_Normal)
    fix n assume "n \<in> set ns"
    with assms(2) obtain ps where "n = Obj ps" by blast
    then show "isWelcomeEntry n =
      Normal (getOpt n ''type'' = Str ''welcome'' \<or>
              truthy (getOpt (getOpt n ''notification_metadata'') ''isWelcome''))"
      by (simp only: isWelcomeEntry_Obj)
  qed
  show ?thesis
    by (cases "ns = []")
       (simp_all add: checkFirstTimeUser_def getNotifications_eq assms(1) prog_defs orElse_def
          getProp_def w)
qed

text \<open>
  Claim C1, at a fetch that fails. \<^verbatim>\<open>getNotifications\<close> catches the error and
  returns an envelope with the empty sequence, so \<^verbatim>\<open>checkFirstTimeUser\<close> takes the
  branch for an empty list and returns true; its own \<^verbatim>\<open>catch\<close>, which returns
  false, is not reached.
\<close>

theorem checkFirstTimeUser_fetch_failure:
  "checkFirstTimeUser (rejectingClient e) s =
     (Normal True, s,
      [ConsoleError ''Failed to fetch notifications, falling back to mock:'' e])"
  by (simp add: checkFirstTimeUser_def getNotifications_eq rejectingClient_def prog_defs
        orElse_def getProp_def)

section \<open>Properties of the notification manager\<close>

lemma calls_append: "calls (xs @ ys) = calls xs @ calls ys"
  by (induction xs rule: calls.induct) auto

lemma calls_fanOut: "calls (spec_fanOut cbs n ls) = map (\<lambda>callback. (callback, n)) ls"
  by (induction ls) (auto simp: calls_append split: completion.splits)

lemma fanOut_logs:
  "callback \<in> set ls \<Longrightarrow> cbs callback n = Throw e \<Longrightarrow>
     ConsoleError ''Error in notification listener:'' e \<in> set (spec_fanOut cbs n ls)"
  by (induction ls) auto

lemma forEachP_listeners:
  "forEachP (\<lambda>callback.
         tryCatch
           (bnd getState (\<lambda>w.
              bnd (emit (Called callback (notifications (mgr w)))) (\<lambda>_.
                await (cbs callback (notifications (mgr w))))))
           (\<lambda>error. emit (ConsoleError ''Error in notification listener:'' error)))
      ls w =
     (Normal (), w, spec_fanOut cbs (notifications (mgr w)) ls)"
  by (induction ls) (simp_all add: prog_defs split: completion.splits)

lemma notifyListeners_eq:
  "notifyListeners cbs w =
     (Normal (), w, spec_fanOut cbs (notifications (mgr w)) (listeners (mgr w)))"
  by (simp add: notifyListeners_def bnd_def getState_def forEachP_listeners)

lemma pollTick_eq:
  "pollTick cbs api w =
     (case getAll api (Obj []) of
        Normal result \<Rightarrow>
          (Normal (),
           w\<lparr>mgr := (mgr w)\<lparr>notifications :=
                orElse (orElse (getOpt result ''data'') result) (Arr [])\<rparr>\<rparr>,
           spec_fanOut cbs (orElse (orElse (getOpt result ''data'') result) (Arr []))
             (listeners (mgr w)))
      | Throw e \<Rightarrow>
          (Normal (), w,
           [ConsoleError ''Failed to fetch notifications, falling back to mock:'' e]))"
  by (simp add: pollTick_def tryCatch_def bnd_def ret_def getNotifications_eq updateManager_def
        notifyListeners_eq split: completion.splits)

text \<open>
  Claim C7. \<^verbatim>\<open>notifyListeners\<close> completes normally and leaves the manager alone;
  every registered listener is called exactly once, in registration order, with the
  current notification sequence, whichever listeners throw; the error of a listener
  that throws is logged. A poll completes normally, and a poll whose fetch succeeds
  calls every listener with the new sequence.
\<close>

theorem notifyListeners_isolates_throws:
  "(\<exists>evs. notifyListeners cbs w = (Normal (), w, evs) \<and>
      calls evs = map (\<lambda>callback. (callback, notifications (mgr w))) (listeners (mgr w)) \<and>
      (\<forall>callback \<in> set (listeners (mgr w)). \<forall>e.
         cbs callback (notifications (mgr w)) = Throw e \<longrightarrow>
         ConsoleError ''Error in notification listener:'' e \<in> set evs)) \<and>
   (\<exists>w' evs. pollTick cbs api w = (Normal (), w', evs)) \<and>
   (\<forall>result. getAll api (Obj []) = Normal result \<longrightarrow>
      (\<exists>w' evs. pollTick cbs api w = (Normal (), w', evs) \<and>
         calls evs = map (\<lambda>callback. (callback, notifications (mgr w'))) (listeners (mgr w))))"
proof (intro conjI)
  show "\<exists>evs. notifyListeners cbs w = (Normal (), w, evs) \<and>
      calls evs = map (\<lambda>callback. (callback, notifications (mgr w))) (listeners (mgr w)) \<and>
      (\<forall>callback \<in> set (listeners (mgr w)). \<forall>e.
         cbs callback (notifications (mgr w)) = Throw e \<longrightarrow>
         ConsoleError ''Error in notification listener:'' e \<in> set evs)"
    by (simp add: notifyListeners_eq calls_fanOut fanOut_logs)
  show "\<exists>w' evs. pollTick cbs api w = (Normal (), w', evs)"
    by (cases "getAll api (Obj [])") (simp_all add: pollTick_eq)
  show "\<forall>result. getAll api (Obj []) = Normal result \<longrightarrow>
      (\<exists>w' evs. pollTick cbs api w = (Normal (), w', evs) \<and>
         calls evs = map (\<lambda>callback. (callback, notifications (mgr w'))) (listeners (mgr w)))"
    by (simp add: pollTick_eq calls_fanOut)
qed

text \<open>Three listeners, the second of which throws.\<close>

theorem notifyListeners_isolates_throws_witness:
  "2 \<in> set (listeners (mgr threeListeners)) \<and>
   throwingSecond 2 (notifications (mgr threeListeners)) = Throw (Error ''boom'') \<and>
   (\<exists>evs. notifyListeners throwingSecond threeListeners = (Normal (), threeListeners, evs) \<and>
      calls evs = [(1, Arr [Str ''n'']), (2, Arr [Str ''n'']), (3, Arr [Str ''n''])] \<and>
      ConsoleError ''Error in notification listener:'' (Error ''boom'') \<in> set evs)"
proof -
  have m: "2 \<in> set (listeners (mgr threeListeners))" by (simp add: threeListeners_def)
  have t: "throwingSecond 2 (notifications (mgr threeListeners)) = Throw (Error ''boom'')"
    by (simp add: throwingSecond_def)
  from notifyListeners_isolates_throws [of throwingSecond threeListeners "resolvingClient Null"]
  obtain evs where n: "notifyListeners throwingSecond threeListeners = (Normal (), threeListeners, evs)"
    and c: "calls evs = map (\<lambda>callback. (callback, notifications (mgr threeListeners)))
              (listeners (mgr threeListeners))"
    and l: "\<forall>callback \<in> set (listeners (mgr threeListeners)). \<forall>e.
         throwingSecond callback (notifications (mgr threeListeners)) = Throw e \<longrightarrow>
         ConsoleError ''Error in notification listener:'' e \<in> set evs"
    by blast
  have c': "calls evs = [(1, Arr [Str ''n'']), (2, Arr [Str ''n'']), (3, Arr [Str ''n''])]"
    using c by (simp add: threeListeners_def)
  have l': "ConsoleError ''Error in notification listener:'' (Error ''boom'') \<in> set evs"
    using l [rule_format, OF m t] .
  from m t n c' l' show ?thesis by blast
qed

text \<open>
  Claim C8. On a poll in which \<^verbatim>\<open>getNotifications\<close> returns a failure envelope the
  manager, its cached notification sequence included, is unchanged and no listener is
  called.
\<close>

theorem pollTick_failure_frame:
  "\<forall>env. fst (getNotifications api (Obj []) w) = Normal env \<and> \<not> success env \<longrightarrow>
     (\<exists>evs. pollTick cbs api w = (Normal (), w, evs) \<and> calls evs = [])"
  by (cases "getAll api (Obj [])") (simp_all add: pollTick_eq getNotifications_eq)

text \<open>A poll against a client that rejects.\<close>

theorem pollTick_failure_frame_witness:
  "fst (getNotifications (rejectingClient (Error ''Network Error'')) (Obj []) threeListeners) =
     Normal \<lparr>success = False, data = Present (Arr []), error = Str ''Network Error''\<rparr> \<and>
   \<not> success \<lparr>success = False, data = Present (Arr []), error = Str ''Network Error''\<rparr> \<and>
   (\<exists>evs. pollTick throwingSecond (rejectingClient (Error ''Network Error'')) threeListeners =
            (Normal (), threeListeners, evs) \<and> calls evs = [])"
proof -
  have g: "fst (getNotifications (rejectingClient (Error ''Network Error'')) (Obj []) threeListeners) =
     Normal \<lparr>success = False, data = Present (Arr []), error = Str ''Network Error''\<rparr>"
    by (simp add: getNotifications_eq rejectingClient_def)
  have s: "\<not> success \<lparr>success = False, data = Present (Arr []), error = Str ''Network Error''\<rparr>"
    by simp
  note p = pollTick_failure_frame
    [of "rejectingClient (Error ''Network Error'')" threeListeners throwingSecond,
     rule_format, OF conjI, OF g s]
  from g s p show ?thesis by (intro conjI)
qed

lemma startRealTime_eq:
  "startRealTime w =
     (if isPolling (mgr w) then (Normal (), w, [])
      else (Normal (),
            w\<lparr>mgr := (mgr w)\<lparr>isPolling := True, pollingInterval := Some (nextHandle w)\<rparr>,
              intervals := intervals w @ [nextHandle w],
              nextHandle := Suc (nextHandle w)\<rparr>,
            [ConsoleLog ''Real-time notifications started'']))"
  by (simp add: startRealTime_def prog_defs updateManager_def setInterval_def)

lemma stopRealTime_eq:
  "stopRealTime w =
     (Normal (),
      (case pollingInterval (mgr w) of
         None \<Rightarrow> w\<lparr>mgr := (mgr w)\<lparr>isPolling := False\<rparr>\<rparr>
       | Some h \<Rightarrow>
           if h \<noteq> 0
           then w\<lparr>mgr := (mgr w)\<lparr>pollingInterval := None, isPolling := False\<rparr>,
                  intervals := removeAll h (intervals w)\<rparr>
           else w\<lparr>mgr := (mgr w)\<lparr>isPolling := False\<rparr>\<rparr>),
      [ConsoleLog ''Real-time notifications stopped''])"
  by (simp add: stopRealTime_def prog_defs updateManager_def clearInterval_def
        split: option.splits)

lemma perform_invariant:
  assumes "pollingInvariant w"
  shows "\<exists>w' evs. perform cbs a w = (Normal (), w', evs) \<and> pollingInvariant w'"
proof (cases a)
  case StartRealTime
  with assms show ?thesis
    by (auto simp: startRealTime_eq pollingInvariant_def)
next
  case StopRealTime
  with assms show ?thesis
    by (auto simp: stopRealTime_eq pollingInvariant_def split: option.splits)
next
  case (AddListener callback)
  with assms show ?thesis
    by (simp add: addListener_def updateManager_def pollingInvariant_def)
next
  case (RemoveListener callback)
  with assms show ?thesis
    by (simp add: removeListener_def updateManager_def pollingInvariant_def)
next
  case (Poll api)
  with assms show ?thesis
    by (cases "getAll api (Obj [])") (simp_all add: pollTick_eq pollingInvariant_def)
qed

lemma run_invariant:
  "pollingInvariant w \<Longrightarrow>
     \<exists>w' evs. run cbs acts w = (Normal (), w', evs) \<and> pollingInvariant w'"
proof (induction acts arbitrary: w)
  case Nil
  then show ?case by (simp add: run_def ret_def)
next
  case (Cons a acts)
  from perform_invariant [OF Cons.prems, of cbs a]
  obtain w1 evs1 where 1: "perform cbs a w = (Normal (), w1, evs1)" and i1: "pollingInvariant w1"
    by blast
  from Cons.IH [OF i1]
  obtain w2 evs2 where 2: "run cbs acts w1 = (Normal (), w2, evs2)" and i2: "pollingInvariant w2"
    by blast
  have "run cbs (a # acts) w = (Normal (), w2, evs1 @ evs2)"
    using 1 2 by (simp add: run_def bnd_def)
  with i2 show ?case by blast
qed

lemma run_append:
  "run cbs acts w = (Normal (), w1, evs1) \<Longrightarrow> run cbs rest w1 = (r, w2, evs2) \<Longrightarrow>
     run cbs (acts @ rest) w = (r, w2, evs1 @ evs2)"
proof (induction acts arbitrary: w evs1)
  case Nil
  then show ?case by (simp add: run_def ret_def)
next
  case (Cons a acts)
  obtain c wa eva where pa: "perform cbs a w = (c, wa, eva)" by (cases "perform cbs a w") auto
  show ?case
  proof (cases c)
    case (Throw e)
    with pa Cons.prems(1) show ?thesis by (simp add: run_def bnd_def)
  next
    case (Normal u)
    obtain evr where ra: "run cbs acts wa = (Normal (), w1, evr)" and e1: "evs1 = eva @ evr"
      using Cons.prems(1) pa Normal
      by (auto simp: run_def bnd_def split: prod.splits)
    from Cons.IH [OF ra Cons.prems(2)]
    have "run cbs (acts @ rest) wa = (r, w2, evr @ evs2)" .
    then show ?thesis using pa Normal e1 by (simp add: run_def bnd_def)
  qed
qed

lemma initial_invariant: "pollingInvariant initialWorld"
  by (simp add: pollingInvariant_def initialWorld_def newManager_def)

lemma invariant_at_most_one:
  "pollingInvariant w \<Longrightarrow> length (intervals w) \<le> 1 \<and> isPolling (mgr w) = (length (intervals w) = 1)"
  by (auto simp: pollingInvariant_def split: option.splits)

text \<open>
  Claim C9. \<^verbatim>\<open>startRealTime\<close> does nothing when the manager is polling. In every
  state reached from a new manager by calls of its methods and by polls at most one
  interval is scheduled, and exactly one iff the manager is polling. Calling
  \<^verbatim>\<open>startRealTime\<close> twice in a row gives the state and the events of calling it
  once, with one interval scheduled.
\<close>

theorem startRealTime_idempotent:
  "(isPolling (mgr w) \<longrightarrow> startRealTime w = (Normal (), w, [])) \<and>
   (\<exists>w' evs. run cbs acts initialWorld = (Normal (), w', evs) \<and>
      length (intervals w') \<le> 1 \<and>
      isPolling (mgr w') = (length (intervals w') = 1)) \<and>
   (\<exists>w' evs. run cbs (acts @ [StartRealTime]) initialWorld = (Normal (), w', evs) \<and>
      run cbs (acts @ [StartRealTime, StartRealTime]) initialWorld = (Normal (), w', evs) \<and>
      length (intervals w') = 1)"
proof (intro conjI)
  show "isPolling (mgr w) \<longrightarrow> startRealTime w = (Normal (), w, [])"
    by (simp add: startRealTime_eq)
  from run_invariant [OF initial_invariant, of cbs acts]
  obtain w1 evs1 where r1: "run cbs acts initialWorld = (Normal (), w1, evs1)"
    and i1: "pollingInvariant w1" by blast
  from r1 invariant_at_most_one [OF i1]
  show "\<exists>w' evs. run cbs acts initialWorld = (Normal (), w', evs) \<and>
      length (intervals w') \<le> 1 \<and> isPolling (mgr w') = (length (intervals w') = 1)"
    by blast
  from run_invariant [OF i1, of cbs "[StartRealTime]"]
  obtain w2 evs2 where r2: "run cbs [StartRealTime] w1 = (Normal (), w2, evs2)"
    and i2: "pollingInvariant w2" by blast
  have s2: "startRealTime w1 = (Normal (), w2, evs2)"
    using r2 by (simp add: run_def bnd_def ret_def split: prod.splits completion.splits)
  have p2: "isPolling (mgr w2)"
    using s2 by (auto simp: startRealTime_eq split: if_splits)
  have s3: "startRealTime w2 = (Normal (), w2, [])" using p2 by (simp add: startRealTime_eq)
  have r3: "run cbs [StartRealTime, StartRealTime] w1 = (Normal (), w2, evs2)"
    using s2 s3 by (simp add: run_def bnd_def ret_def)
  have l2: "length (intervals w2) = 1" using invariant_at_most_one [OF i2] p2 by simp
  from run_append [OF r1 r2] run_append [OF r1 r3] l2
  show "\<exists>w' evs. run cbs (acts @ [StartRealTime]) initialWorld = (Normal (), w', evs) \<and>
      run cbs (acts @ [StartRealTime, StartRealTime]) initialWorld = (Normal (), w', evs) \<and>
      length (intervals w') = 1"
    by blast
qed

text \<open>A manager that is polling.\<close>

theorem startRealTime_idempotent_witness:
  "isPolling (mgr threeListeners) \<and>
   startRealTime threeListeners = (Normal (), threeListeners, [])"
proof -
  have p: "isPolling (mgr threeListeners)" by (simp add: threeListeners_def)
  note t = startRealTime_idempotent [of threeListeners throwingSecond "[]", THEN conjunct1,
    rule_format, OF p]
  from p t show ?thesis by (intro conjI)
qed

end
